theory Spec2Isabelle
  imports Complex_Main "HOL-Library.Sublist" "HOL-Library.Log_Nat"
begin

section \<open>Errors\<close>

text \<open>
  Every exception the modelled code can raise is a value of \<open>error\<close>; a fallible
  function returns \<open>error + 'a\<close> with \<open>Inl\<close> for the raised exception.
\<close>

datatype error =
    AssertionError
  | ZeroDivisionError
  | ValueError
  | IndexError
  | KeyError
  | OverflowError
  | RuntimeError
  | ResourceError

text \<open>Sequencing of fallible steps: the first exception propagates.\<close>

definition bindE :: "error + 'a \<Rightarrow> ('a \<Rightarrow> error + 'b) \<Rightarrow> error + 'b" where
  "bindE m f = (case m of Inl e \<Rightarrow> Inl e | Inr a \<Rightarrow> f a)"

section \<open>Python floats\<close>

text \<open>
  A Python float is an IEEE 754 double: a finite value \<open>mantissa * 2 ^ exponent\<close>, an
  infinity, or NaN. A double has a mantissa below \<open>2 ^ 53\<close> in absolute value, an
  exponent of at least \<open>-1074\<close> and an absolute value below \<open>2 ^ 1024\<close>. The two zeros
  are identified: neither \<open>int\<close> nor the comparison with \<open>1.0\<close> tells them apart.
\<close>

datatype pyfloat = Finite (mantissa: int) (exponent: int) | PosInf | NegInf | NaN

text \<open>\<open>a / 2 ^ s\<close> for \<open>a \<ge> 0\<close>, rounded to the nearest integer, ties to the even one.\<close>

definition round_half_even :: "int \<Rightarrow> nat \<Rightarrow> int" where
  "round_half_even a s =
     (let q = a div 2 ^ s; r = a mod 2 ^ s; h = 2 ^ (s - 1)
      in if s = 0 then a
         else if r < h then q
         else if h < r then q + 1
         else if even q then q else q + 1)"

text \<open>
  The exact value \<open>m * 2 ^ e\<close> rounded to the nearest double, ties to even: \<open>t\<close> is the
  exponent of the unit in the last place of the result (that of the subnormals at the
  least), \<open>q\<close> the rounded mantissa; a result of \<open>2 ^ 1024\<close> or more overflows to an
  infinity.
\<close>

definition round_double :: "int \<Rightarrow> int \<Rightarrow> pyfloat" where
  "round_double m e =
     (if m = 0 then Finite 0 0
      else
        let t = max (e + bitlen \<bar>m\<bar> - 53) (- 1074);
            q = (if t \<le> e then \<bar>m\<bar> * 2 ^ nat (e - t) else round_half_even \<bar>m\<bar> (nat (t - e)))
        in if 1024 < bitlen q + t then (if 0 < m then PosInf else NegInf)
           else Finite (if 0 < m then q else - q) t)"

text \<open>
  The conversion of a Python integer to a float, as in \<open>c * width_mult\<close> with an
  integer \<open>c\<close>: correctly rounded, \<open>OverflowError\<close> for an integer too large for a double.
\<close>

definition float_of_int :: "int \<Rightarrow> error + pyfloat" where
  "float_of_int c =
     (case round_double c 0 of
        PosInf \<Rightarrow> Inl OverflowError
      | NegInf \<Rightarrow> Inl OverflowError
      | f \<Rightarrow> Inr f)"

text \<open>The product of two floats: the exact product, rounded; the IEEE rules otherwise.\<close>

fun float_mul :: "pyfloat \<Rightarrow> pyfloat \<Rightarrow> pyfloat" where
  "float_mul (Finite m e) (Finite m' e') = round_double (m * m') (e + e')"
| "float_mul NaN y = NaN"
| "float_mul x NaN = NaN"
| "float_mul (Finite m e) PosInf = (if 0 < m then PosInf else if m < 0 then NegInf else NaN)"
| "float_mul (Finite m e) NegInf = (if 0 < m then NegInf else if m < 0 then PosInf else NaN)"
| "float_mul PosInf (Finite m e) = (if 0 < m then PosInf else if m < 0 then NegInf else NaN)"
| "float_mul NegInf (Finite m e) = (if 0 < m then NegInf else if m < 0 then PosInf else NaN)"
| "float_mul PosInf PosInf = PosInf"
| "float_mul PosInf NegInf = NegInf"
| "float_mul NegInf PosInf = NegInf"
| "float_mul NegInf NegInf = PosInf"

definition int_times_float :: "int \<Rightarrow> pyfloat \<Rightarrow> error + pyfloat" where
  "int_times_float c w = bindE (float_of_int c) (\<lambda>f. Inr (float_mul f w))"

text \<open>
  Python's \<open>int(x)\<close> on a float truncates towards zero; it raises \<open>OverflowError\<close> on
  an infinity and \<open>ValueError\<close> on NaN.
\<close>

fun py_int :: "pyfloat \<Rightarrow> error + int" where
  "py_int (Finite m e) =
     Inr (if 0 \<le> e then m * 2 ^ nat e
          else if 0 \<le> m then m div 2 ^ nat (- e) else - ((- m) div 2 ^ nat (- e)))"
| "py_int PosInf = Inl OverflowError"
| "py_int NegInf = Inl OverflowError"
| "py_int NaN = Inl ValueError"

text \<open>The expression \<open>int(c * width_mult)\<close> for an integer \<open>c\<close>.\<close>

definition int_of_product :: "int \<Rightarrow> pyfloat \<Rightarrow> error + int" where
  "int_of_product c w = bindE (int_times_float c w) py_int"

text \<open>The comparisons \<open>w > 1.0\<close> and \<open>w <= 1.0\<close>; both are false for NaN.\<close>

fun float_gt_one :: "pyfloat \<Rightarrow> bool" where
  "float_gt_one (Finite m e) = (if 0 \<le> e then 1 < m * 2 ^ nat e else 2 ^ nat (- e) < m)"
| "float_gt_one PosInf = True"
| "float_gt_one NegInf = False"
| "float_gt_one NaN = False"

fun float_le_one :: "pyfloat \<Rightarrow> bool" where
  "float_le_one (Finite m e) = (if 0 \<le> e then m * 2 ^ nat e \<le> 1 else m \<le> 2 ^ nat (- e))"
| "float_le_one PosInf = False"
| "float_le_one NegInf = True"
| "float_le_one NaN = False"

section \<open>Layers\<close>

text \<open>
  The layers of the tensor library that the file instantiates, with the constructor
  arguments the file passes. \<open>nn.Conv2d(inp, oup, k, stride, padding, groups, bias)\<close>
  stores the square kernel size \<open>k\<close> as the pair \<open>(k, k)\<close>; \<open>nn.ReLU6(inplace=True)\<close>
  overwrites its input tensor instead of allocating its output.
\<close>

datatype layer =
    Conv2d (in_channels: int) (out_channels: int) (kernel_size: "int \<times> int")
           (conv_stride: int) (padding: int) (groups: int) (has_bias: bool)
  | BatchNorm2d (num_features: int)
  | ReLU6 (inplace: bool)
  | Linear (in_features: int) (out_features: int)
  | Sigmoid
  | Dropout real
  | AdaptiveAvgPool2d int

definition nn_Conv2d :: "int \<Rightarrow> int \<Rightarrow> int \<Rightarrow> int \<Rightarrow> int \<Rightarrow> int \<Rightarrow> bool \<Rightarrow> layer" where
  "nn_Conv2d inp oup k s p g b = Conv2d inp oup (k, k) s p g b"

text \<open>\<open>conv_bn\<close> and \<open>conv_1x1_bn\<close>: an \<open>nn.Sequential\<close> is the list of its layers.\<close>

definition conv_bn :: "int \<Rightarrow> int \<Rightarrow> int \<Rightarrow> layer list" where
  "conv_bn inp oup strd =
     [nn_Conv2d inp oup 3 strd 1 1 False, BatchNorm2d oup, ReLU6 True]"

definition conv_1x1_bn :: "int \<Rightarrow> int \<Rightarrow> layer list" where
  "conv_1x1_bn inp oup =
     [nn_Conv2d inp oup 1 1 0 1 False, BatchNorm2d oup, ReLU6 True]"

section \<open>Squeeze-and-excitation gate: construction\<close>

record SEMobile =
  avg_pool :: layer
  fc :: "layer list"

text \<open>
  \<open>SEMobile.__init__(channel, reduction=4)\<close>. Python's \<open>//\<close> on integers is floor
  division, as \<open>div\<close> on \<open>int\<close> is; it raises \<open>ZeroDivisionError\<close> for a zero divisor.
\<close>

definition SEMobile_init :: "int \<Rightarrow> int \<Rightarrow> error + SEMobile" where
  "SEMobile_init channel reduction =
     (if reduction = 0 then Inl ZeroDivisionError
      else Inr \<lparr> avg_pool = AdaptiveAvgPool2d 1,
                 fc = [Linear channel (channel div reduction),
                       ReLU6 True,
                       Linear (channel div reduction) channel,
                       Sigmoid] \<rparr>)"

section \<open>Squeeze-and-excitation gate: forward pass\<close>

text \<open>
  Tensor entries are modelled by real numbers (the rounding of floating-point
  arithmetic, NaN and the infinities are outside the model). A feature map of shape
  \<open>(b, c, h, w)\<close> is a list of \<open>b\<close> samples, each a list of \<open>c\<close> planes of \<open>h\<close> rows of
  \<open>w\<close> entries; a tensor of shape \<open>(b, c)\<close> is a list of \<open>b\<close> rows. The parameters of a
  linear layer are its weight matrix, one row per output feature, and its bias.
\<close>

type_synonym tensor4 = "real list list list list"

record linear_params =
  lin_weight :: "real list list"
  lin_bias :: "real list"

text \<open>
  Tensors live in a store, addressed by their position, so that writing in place and
  allocating a result are different things: an operation that allocates appends a cell,
  one that writes in place updates a cell.
\<close>

datatype tensor = T4 tensor4 | T2 "real list list"

type_synonym heap = "tensor list"

text \<open>Applying a fallible function to every element; the first exception propagates.\<close>

fun mapE :: "('a \<Rightarrow> error + 'b) \<Rightarrow> 'a list \<Rightarrow> error + 'b list" where
  "mapE f [] = Inr []"
| "mapE f (a # as) = bindE (f a) (\<lambda>b. bindE (mapE f as) (\<lambda>bs. Inr (b # bs)))"

text \<open>
  \<open>nn.AdaptiveAvgPool2d(1)\<close> on one sample: the mean of every plane. The library
  rejects an input with an empty non-batch dimension.
\<close>

definition adaptive_avg_pool_1 :: "real list list list \<Rightarrow> error + real list" where
  "adaptive_avg_pool_1 sample =
     (if sample = [] then Inl RuntimeError
      else mapE (\<lambda>plane. let vals = concat plane
                         in if vals = [] then Inl RuntimeError
                            else Inr (sum_list vals / real (length vals))) sample)"

definition relu6 :: "real \<Rightarrow> real" where
  "relu6 v = min (max 0 v) 6"

definition sigmoid :: "real \<Rightarrow> real" where
  "sigmoid v = 1 / (1 + exp (- v))"

text \<open>\<open>nn.Linear\<close> on one row: \<open>y W\<^sup>T + b\<close>.\<close>

definition affine :: "linear_params \<Rightarrow> real list \<Rightarrow> real list" where
  "affine p y = map2 (\<lambda>row b. sum_list (map2 (*) row y) + b) (lin_weight p) (lin_bias p)"

text \<open>
  One layer of the gate's \<open>fc\<close> on one row of a \<open>(b, c)\<close> tensor. A linear layer
  raises on a row whose length is not its \<open>in_features\<close>. Only the layer kinds that occur
  in \<open>fc\<close> are interpreted; the others are not applicable to a \<open>(b, c)\<close> tensor here.
\<close>

fun apply_layer :: "linear_params \<Rightarrow> layer \<Rightarrow> real list \<Rightarrow> error + real list" where
  "apply_layer p (Linear i oc) y =
     (if int (length y) \<noteq> i then Inl RuntimeError else Inr (affine p y))"
| "apply_layer p (ReLU6 ip) y = Inr (map relu6 y)"
| "apply_layer p Sigmoid y = Inr (map sigmoid y)"
| "apply_layer p m y = Inl RuntimeError"

fun writes_in_place :: "layer \<Rightarrow> bool" where
  "writes_in_place (ReLU6 ip) = ip"
| "writes_in_place m = False"

text \<open>
  An \<open>nn.Sequential\<close> run on the \<open>(b, c)\<close> tensor at address \<open>a\<close>: layer \<open>i\<close> reads
  the current tensor and either overwrites it (\<open>inplace=True\<close>) or allocates its output,
  which becomes the current tensor. \<open>ps i\<close> are the parameters of layer \<open>i\<close>. The result
  is the address of the output and the store.
\<close>

fun run_sequential ::
  "(nat \<Rightarrow> linear_params) \<Rightarrow> nat \<Rightarrow> layer list \<Rightarrow> nat \<Rightarrow> heap \<Rightarrow> error + nat \<times> heap" where
  "run_sequential ps i [] a h = Inr (a, h)"
| "run_sequential ps i (m # ms) a h =
     (if a < length h then
        (case h ! a of
           T2 y \<Rightarrow>
             bindE (mapE (apply_layer (ps i) m) y) (\<lambda>y'.
               if writes_in_place m
               then run_sequential ps (Suc i) ms a (h[a := T2 y'])
               else run_sequential ps (Suc i) ms (length h) (h @ [T2 y']))
         | T4 x \<Rightarrow> Inl RuntimeError)
      else Inl RuntimeError)"

text \<open>\<open>x * y\<close> with \<open>y\<close> of shape \<open>(b, c, 1, 1)\<close>: every plane is multiplied by its factor.\<close>

definition scale_channels :: "tensor4 \<Rightarrow> real list list \<Rightarrow> tensor4" where
  "scale_channels x y =
     map2 (\<lambda>sample gs. map2 (\<lambda>plane g. map (map (\<lambda>v. v * g)) plane) sample gs) x y"

text \<open>
  \<open>SEMobile.forward\<close> on the tensor at address \<open>ax\<close>. Unpacking \<open>x.size()\<close> into four
  names raises \<open>ValueError\<close> for a tensor that is not four-dimensional. The pooled tensor
  is allocated; \<open>view\<close> shares its storage; \<open>fc\<close> runs on it; \<open>view(b, c, 1, 1)\<close> raises
  unless \<open>fc\<close> returned \<open>c\<close> factors for every sample; the product is allocated.
\<close>

definition SEMobile_forward ::
  "SEMobile \<Rightarrow> (nat \<Rightarrow> linear_params) \<Rightarrow> nat \<Rightarrow> heap \<Rightarrow> error + nat \<times> heap" where
  "SEMobile_forward self ps ax h =
     (if ax < length h then
        (case h ! ax of
           T4 x \<Rightarrow>
             bindE (mapE adaptive_avg_pool_1 x) (\<lambda>y.
             bindE (run_sequential ps 0 (fc self) (length h) (h @ [T2 y])) (\<lambda>(ay, h').
               (case h' ! ay of
                  T2 y \<Rightarrow>
                    if list_all2 (\<lambda>sample gs. length gs = length sample) x y
                    then Inr (length h', h' @ [T4 (scale_channels x y)])
                    else Inl RuntimeError
                | T4 z \<Rightarrow> Inl RuntimeError)))
         | T2 y \<Rightarrow> Inl ValueError)
      else Inl RuntimeError)"

text \<open>Shapes: a feature map of shape \<open>(b, c, h, w)\<close>, the parameters of \<open>Linear(i, oc)\<close>.\<close>

definition wf_tensor :: "nat \<Rightarrow> nat \<Rightarrow> nat \<Rightarrow> nat \<Rightarrow> tensor4 \<Rightarrow> bool" where
  "wf_tensor b c h w x =
     (length x = b \<and> list_all (\<lambda>sample. length sample = c
        \<and> list_all (\<lambda>plane. length plane = h \<and> list_all (\<lambda>row. length row = w) plane) sample) x)"

definition wf_linear :: "int \<Rightarrow> int \<Rightarrow> linear_params \<Rightarrow> bool" where
  "wf_linear i oc p =
     (int (length (lin_weight p)) = oc \<and> list_all (\<lambda>row. int (length row) = i) (lin_weight p)
      \<and> int (length (lin_bias p)) = oc)"

text \<open>
  The gate in the words of the specification: the channel-wise global average of a
  sample, then the two-layer bottleneck with the bounded nonlinearity between the layers,
  then the sigmoid.
\<close>

definition channel_means :: "real list list list \<Rightarrow> real list" where
  "channel_means sample = map (\<lambda>plane. sum_list (concat plane) / real (length (concat plane))) sample"

definition se_gate_spec :: "linear_params \<Rightarrow> linear_params \<Rightarrow> real list list list \<Rightarrow> real list" where
  "se_gate_spec p0 p2 sample = map sigmoid (affine p2 (map relu6 (affine p0 (channel_means sample))))"

section \<open>Inverted residual block\<close>

record InvertedResidual =
  stride :: int
  use_res_connect :: bool
  conv :: "layer list"
  se :: SEMobile

text \<open>
  \<open>InvertedResidual.__init__(inp, oup, stride, expand_ratio)\<close>. The channel counts and
  the expansion ratio are Python integers, so \<open>round(inp * expand_ratio)\<close> is the product
  itself. The \<open>assert\<close> is the first statement that can fail. The layer constructors of
  the tensor library check their own arguments (a convolution needs a positive \<open>groups\<close>, a
  layer cannot have a negative size); these checks are not part of the file and are not
  modelled, so a block returned here for non-positive channel counts need not exist in
  the code.
\<close>

definition InvertedResidual_init :: "int \<Rightarrow> int \<Rightarrow> int \<Rightarrow> int \<Rightarrow> error + InvertedResidual" where
  "InvertedResidual_init inp oup strd expand_ratio =
     (if \<not> (strd = 1 \<or> strd = 2) then Inl AssertionError
      else
        let hidden_dim = inp * expand_ratio;
            res = (strd = 1 \<and> inp = oup);
            cv = (if expand_ratio = 1 then
                    [nn_Conv2d hidden_dim hidden_dim 3 strd 1 hidden_dim False,
                     BatchNorm2d hidden_dim,
                     ReLU6 True,
                     nn_Conv2d hidden_dim oup 1 1 0 1 False,
                     BatchNorm2d oup]
                  else
                    [nn_Conv2d inp hidden_dim 1 1 0 1 False,
                     BatchNorm2d hidden_dim,
                     ReLU6 True,
                     nn_Conv2d hidden_dim hidden_dim 3 strd 1 hidden_dim False,
                     BatchNorm2d hidden_dim,
                     ReLU6 True,
                     nn_Conv2d hidden_dim oup 1 1 0 1 False,
                     BatchNorm2d oup])
        in bindE (SEMobile_init oup 4)
             (\<lambda>s. Inr \<lparr> stride = strd, use_res_connect = res, conv = cv, se = s \<rparr>))"

text \<open>
  \<open>InvertedResidual.forward\<close>. The numerics of the convolution stack, of the gate and
  of tensor addition belong to the tensor library; the block's forward pass is modelled
  over an arbitrary tensor type with these three operations as parameters, each of which
  may raise. What the source decides is which of them run and in which order.
\<close>

definition InvertedResidual_forward ::
  "(layer list \<Rightarrow> 't \<Rightarrow> error + 't) \<Rightarrow> (SEMobile \<Rightarrow> 't \<Rightarrow> error + 't) \<Rightarrow>
   ('t \<Rightarrow> 't \<Rightarrow> error + 't) \<Rightarrow> InvertedResidual \<Rightarrow> 't \<Rightarrow> error + 't" where
  "InvertedResidual_forward run_seq run_se add self x =
     (if use_res_connect self then
        bindE (run_seq (conv self) x) (\<lambda>out.
        bindE (run_se (se self) out) (\<lambda>out.
        add x out))
      else
        bindE (run_seq (conv self) x) (\<lambda>out.
        bindE (run_se (se self) out) (\<lambda>out.
        Inr out)))"

section \<open>The full network\<close>

text \<open>
  An entry of \<open>self.features\<close> is either an \<open>nn.Sequential\<close> built by \<open>conv_bn\<close> or
  \<open>conv_1x1_bn\<close>, or an inverted residual block.
\<close>

datatype feature = Sequential "layer list" | Block InvertedResidual

text \<open>
  The state of a layer's \<open>weight\<close> and \<open>bias\<close> after construction. The values are
  random draws; the model records which initialiser was applied with which arguments:
  \<open>Normal_init mean std\<close> for \<open>normal_(mean, std)\<close>, \<open>Fill_init v\<close> for \<open>fill_(v)\<close>,
  \<open>Zero_init\<close> for \<open>zero_()\<close>, \<open>Library_default\<close> for a parameter that only the
  library's own constructor has initialised, and \<open>No_param\<close> for an absent one
  (\<open>bias=False\<close>, or a layer without parameters).
\<close>

datatype param_init =
    Library_default
  | Normal_init real real
  | Fill_init real
  | Zero_init
  | No_param

record SEMobileNetV2 =
  last_channel :: int
  features :: "feature list"
  classifier :: "layer list"
  params :: "(layer \<times> param_init \<times> param_init) list"

definition interverted_residual_setting :: "(int \<times> int \<times> int \<times> int) list" where
  "interverted_residual_setting =
     [(1, 16, 1, 1),
      (6, 24, 2, 2),
      (6, 32, 3, 2),
      (6, 64, 4, 2),
      (6, 96, 3, 1),
      (6, 160, 3, 2),
      (6, 320, 1, 1)]"

text \<open>
  The inner loop \<open>for i in range(n)\<close> over the remaining indices, with the loop state
  \<open>(self.features, input_channel)\<close>; an exception of the block constructor propagates.
\<close>

fun build_stage ::
  "int \<Rightarrow> int \<Rightarrow> int \<Rightarrow> nat list \<Rightarrow> feature list \<times> int \<Rightarrow> error + feature list \<times> int" where
  "build_stage t output_channel s [] st = Inr st"
| "build_stage t output_channel s (i # is) (feats, input_channel) =
     bindE (if i = 0 then InvertedResidual_init input_channel output_channel s t
            else InvertedResidual_init input_channel output_channel 1 t)
       (\<lambda>b. build_stage t output_channel s is (feats @ [Block b], output_channel))"

text \<open>The outer loop \<open>for t, c, n, s in interverted_residual_setting\<close>.\<close>

fun build_stages ::
  "(int \<times> int \<times> int \<times> int) list \<Rightarrow> pyfloat \<Rightarrow> feature list \<times> int \<Rightarrow>
   error + feature list \<times> int" where
  "build_stages [] width_mult st = Inr st"
| "build_stages ((t, c, n, s) # rows) width_mult st =
     bindE (int_of_product c width_mult) (\<lambda>output_channel.
     bindE (build_stage t output_channel s [0..<nat n] st)
       (build_stages rows width_mult))"

text \<open>
  \<open>self.modules()\<close> walks the module tree in registration order. The containers
  (the network, each \<open>nn.Sequential\<close>, each block, each gate) are visited too, but they
  are none of \<open>nn.Conv2d\<close>, \<open>nn.BatchNorm2d\<close>, \<open>nn.Linear\<close>, so \<open>_initialize_weights\<close>
  skips them; the traversal below lists the layers.
\<close>

definition modules_SEMobile :: "SEMobile \<Rightarrow> layer list" where
  "modules_SEMobile s = avg_pool s # fc s"

definition modules_InvertedResidual :: "InvertedResidual \<Rightarrow> layer list" where
  "modules_InvertedResidual b = conv b @ modules_SEMobile (se b)"

fun modules_feature :: "feature \<Rightarrow> layer list" where
  "modules_feature (Sequential ls) = ls"
| "modules_feature (Block b) = modules_InvertedResidual b"

definition modules :: "feature list \<Rightarrow> layer list \<Rightarrow> layer list" where
  "modules feats cls = concat (map modules_feature feats) @ cls"

text \<open>The parameters of a layer as the library's constructor leaves them.\<close>

fun default_params :: "layer \<Rightarrow> param_init \<times> param_init" where
  "default_params (Conv2d i oc ks s p g b) =
     (Library_default, if b then Library_default else No_param)"
| "default_params (BatchNorm2d n) = (Library_default, Library_default)"
| "default_params (Linear i oc) = (Library_default, Library_default)"
| "default_params m = (No_param, No_param)"

text \<open>
  The body of the loop of \<open>_initialize_weights\<close> for one module \<open>m\<close>. In the first
  branch \<open>2. / n\<close> raises \<open>ZeroDivisionError\<close> for \<open>n = 0\<close> and \<open>math.sqrt\<close> raises
  \<open>ValueError\<close> for a negative argument.
\<close>

fun initialize_layer :: "layer \<Rightarrow> param_init \<times> param_init \<Rightarrow> error + param_init \<times> param_init" where
  "initialize_layer (Conv2d i oc ks s p g b) (weight, bias) =
     (let n = fst ks * snd ks * oc in
        if n = 0 then Inl ZeroDivisionError
        else if n < 0 then Inl ValueError
        else Inr (Normal_init 0 (sqrt (2 / of_int n)),
                  if bias \<noteq> No_param then Zero_init else bias))"
| "initialize_layer (BatchNorm2d n) (weight, bias) = Inr (Fill_init 1, Zero_init)"
| "initialize_layer (Linear i oc) (weight, bias) = Inr (Normal_init 0 0.01, Zero_init)"
| "initialize_layer m (weight, bias) = Inr (weight, bias)"

text \<open>\<open>_initialize_weights\<close>: the loop \<open>for m in self.modules()\<close>.\<close>

fun initialize_weights :: "layer list \<Rightarrow> error + (layer \<times> param_init \<times> param_init) list" where
  "initialize_weights [] = Inr []"
| "initialize_weights (m # ms) =
     bindE (initialize_layer m (default_params m)) (\<lambda>st.
     bindE (initialize_weights ms) (\<lambda>rest.
     Inr ((m, st) # rest)))"

text \<open>\<open>SEMobileNetV2.__init__(n_class, input_size, width_mult, last_channel)\<close>.\<close>

definition SEMobileNetV2_init :: "int \<Rightarrow> int \<Rightarrow> pyfloat \<Rightarrow> int \<Rightarrow> error + SEMobileNetV2" where
  "SEMobileNetV2_init n_class input_size width_mult lc =
     (if input_size mod 32 \<noteq> 0 then Inl AssertionError
      else
        bindE (int_of_product 32 width_mult) (\<lambda>input_channel.
        bindE (if float_gt_one width_mult then int_of_product lc width_mult else Inr lc) (\<lambda>last.
        let feats = [Sequential (conv_bn 3 input_channel 2)]
        in bindE (build_stages interverted_residual_setting width_mult (feats, input_channel))
             (\<lambda>(feats, input_channel).
                let feats = feats @ [Sequential (conv_1x1_bn input_channel last)];
                    cls = [Dropout 0.2, Linear last n_class]
                in bindE (initialize_weights (modules feats cls))
                     (\<lambda>ps. Inr \<lparr> last_channel = last, features = feats,
                                  classifier = cls, params = ps \<rparr>)))))"








text \<open>
  The initialisation policy in the words of the specification, for one layer with the
  final state of its \<open>weight\<close> and \<open>bias\<close>.
\<close>

definition init_policy :: "layer \<Rightarrow> param_init \<Rightarrow> param_init \<Rightarrow> bool" where
  "init_policy m weight bias =
     (case m of
        Conv2d i oc ks s p g b \<Rightarrow>
          (\<exists>std. weight = Normal_init 0 std \<and> 0 \<le> std
                 \<and> std\<^sup>2 = 2 / (of_int (fst ks) * of_int (snd ks) * of_int oc))
          \<and> bias = (if b then Zero_init else No_param)
      | BatchNorm2d n \<Rightarrow> weight = Fill_init 1 \<and> bias = Zero_init
      | Linear i oc \<Rightarrow> weight = Normal_init 0 0.01 \<and> bias = Zero_init
      | _ \<Rightarrow> weight = No_param \<and> bias = No_param)"

section \<open>Pretrained weight loader\<close>

text \<open>Python's \<open>sub in s\<close> on strings: \<open>sub\<close> occurs in \<open>s\<close> as a contiguous substring.\<close>

fun str_contains :: "string \<Rightarrow> string \<Rightarrow> bool" where
  "str_contains sub [] = (sub = [])"
| "str_contains sub (c # cs) = (prefix sub (c # cs) \<or> str_contains sub cs)"

text \<open>
  Python's \<open>s.replace(old, new)\<close>: a single scan from the left that replaces each
  occurrence of \<open>old\<close> it meets and continues behind it. (For an empty \<open>old\<close>, Python
  inserts \<open>new\<close> before every character and at the end.)
\<close>

function str_replace :: "string \<Rightarrow> string \<Rightarrow> string \<Rightarrow> string" where
  "str_replace old new [] = (if old = [] then new else [])"
| "str_replace old new (c # cs) =
     (if old = [] then new @ c # str_replace old new cs
      else if prefix old (c # cs) then new @ str_replace old new (drop (length old) (c # cs))
      else c # str_replace old new cs)"
  by pat_completeness auto
termination
  by (relation "measure (\<lambda>(old, new, s). length s)") auto

text \<open>
  An \<open>OrderedDict\<close> is the list of its items in insertion order, with distinct keys.
  \<open>d[k] = v\<close> overwrites the value of a key that is present, in place, and appends a new
  key at the end.
\<close>

fun od_set :: "'k \<Rightarrow> 'v \<Rightarrow> ('k \<times> 'v) list \<Rightarrow> ('k \<times> 'v) list" where
  "od_set k v [] = [(k, v)]"
| "od_set k v ((k', v') # kvs) =
     (if k' = k then (k, v) # kvs else (k', v') # od_set k v kvs)"

text \<open>
  The loop \<open>for k, v in checkpoint.items()\<close> over the remaining items, with the
  \<open>new_state_dict\<close> built so far.
\<close>

fun strip_loop :: "(string \<times> 'v) list \<Rightarrow> (string \<times> 'v) list \<Rightarrow> (string \<times> 'v) list" where
  "strip_loop [] new_state_dict = new_state_dict"
| "strip_loop ((k, v) # items) new_state_dict =
     (let name = str_replace ''module.'' [] k
      in strip_loop items (od_set name v new_state_dict))"

text \<open>
  The step commented \<open>Handle DataParallel\<close>: from the checkpoint's model state to
  \<open>new_state_dict\<close>. \<open>list(checkpoint.keys())[0]\<close> raises \<open>IndexError\<close> on an empty
  mapping.
\<close>

definition handle_DataParallel :: "(string \<times> 'v) list \<Rightarrow> error + (string \<times> 'v) list" where
  "handle_DataParallel checkpoint =
     (case map fst checkpoint of
        [] \<Rightarrow> Inl IndexError
      | k0 # ks \<Rightarrow>
          if str_contains ''module.'' k0 then Inr (strip_loop checkpoint [])
          else Inr checkpoint)"

text \<open>
  What the loader takes from outside the file: the object retrieved from the URL and
  the one read from the local path (or the error of the retrieval), the names and freshly
  drawn values of the parameters of a constructed network (\<open>state_dict()\<close>, named by the
  tensor library), and the library method \<open>load_state_dict\<close> from the network's
  current parameters and a state dict to its new parameters. A retrieved checkpoint is a
  mapping; only its entry \<open>model_state\<close> is read.
\<close>

record 'v library =
  load_state_dict_from_url :: "error + (string \<rightharpoonup> (string \<times> 'v) list)"
  torch_load :: "error + (string \<rightharpoonup> (string \<times> 'v) list)"
  fresh_state_dict :: "SEMobileNetV2 \<Rightarrow> (string \<times> 'v) list"
  load_state_dict :: "(string \<times> 'v) list \<Rightarrow> (string \<times> 'v) list \<Rightarrow> error + (string \<times> 'v) list"

record 'v model =
  network :: SEMobileNetV2
  returns_features :: bool
  state_dict :: "(string \<times> 'v) list"

text \<open>\<open>SEMobileNetV2Features\<close> only overrides \<open>forward\<close>; its constructor calls the parent's.\<close>

definition SEMobileNetV2Features_init :: "int \<Rightarrow> int \<Rightarrow> pyfloat \<Rightarrow> int \<Rightarrow> error + SEMobileNetV2" where
  "SEMobileNetV2Features_init n_class input_size width_mult lc =
     SEMobileNetV2_init n_class input_size width_mult lc"

text \<open>
  \<open>se_mobilenet_v2(pretrained, features, n_class, last_channel, remote)\<close>. The
  constructors are called with the default \<open>input_size=224\<close> and \<open>width_mult=1.\<close>,
  the float \<open>Finite 1 0\<close>.
\<close>

definition se_mobilenet_v2 ::
  "'v library \<Rightarrow> bool \<Rightarrow> bool \<Rightarrow> int \<Rightarrow> int \<Rightarrow> bool \<Rightarrow> error + 'v model" where
  "se_mobilenet_v2 lib pretrained feats n_class lc remote =
     bindE (if \<not> feats then SEMobileNetV2_init n_class 224 (Finite 1 0) lc
            else SEMobileNetV2Features_init n_class 224 (Finite 1 0) lc)
       (\<lambda>net.
          let model = \<lparr> network = net, returns_features = feats,
                        state_dict = fresh_state_dict lib net \<rparr>
          in if pretrained then
               bindE (if remote then load_state_dict_from_url lib else torch_load lib)
                 (\<lambda>checkpoint.
               bindE (case checkpoint ''model_state'' of
                        None \<Rightarrow> Inl KeyError | Some sd \<Rightarrow> Inr sd)
                 (\<lambda>checkpoint.
               bindE (handle_DataParallel checkpoint)
                 (\<lambda>new_state_dict.
               bindE (load_state_dict lib (state_dict model) new_state_dict)
                 (\<lambda>st. Inr (model\<lparr>state_dict := st\<rparr>)))))
             else Inr model)"

text \<open>
  Modelled from the spec: the library method \<open>load_state_dict\<close> is not part of the
  file. The specification says of it that the load fails when the key set of the state
  dict does not exactly match the network's parameter names, and that a load is a full
  replacement of the parameter values, not a merge. \<open>current\<close> is the network's
  parameters before the load, \<open>sd\<close> the state dict that is loaded.
\<close>

definition load_state_dict_strict ::
  "(string \<times> 'v) list \<Rightarrow> (string \<times> 'v) list \<Rightarrow> error + (string \<times> 'v) list" where
  "load_state_dict_strict current sd =
     (if set (map fst sd) = set (map fst current)
      then Inr (map (\<lambda>(k, old). (k, case map_of sd k of Some v \<Rightarrow> v | None \<Rightarrow> old)) current)
      else Inl RuntimeError)"

text \<open>Python's \<open>sep.join(segs)\<close>, used to state what \<open>replace\<close> removes.\<close>

fun join :: "string \<Rightarrow> string list \<Rightarrow> string" where
  "join sep [] = []"
| "join sep [s] = s"
| "join sep (s # t # ss) = s @ sep @ join sep (t # ss)"

section \<open>Properties of the squeeze-and-excitation gate\<close>

lemma bindE_Inr [simp]: "bindE (Inr a) f = f a"
  by (simp add: bindE_def)

lemma bindE_Inl [simp]: "bindE (Inl e) f = Inl e"
  by (simp add: bindE_def)

lemma bindE_return [simp]: "bindE m Inr = m"
  by (cases m) simp_all

lemma mapE_map: "(\<And>a. a \<in> set xs \<Longrightarrow> f a = Inr (g a)) \<Longrightarrow> mapE f xs = Inr (map g xs)"
  by (induction xs) simp_all

lemma sigmoid_bounds: "0 < sigmoid v \<and> sigmoid v < 1"
proof -
  have "0 < exp (- v)" by simp
  then show ?thesis by (simp add: sigmoid_def add_pos_pos)
qed

lemma length_affine: "wf_linear i oc p \<Longrightarrow> int (length (affine p y)) = oc"
  by (simp add: wf_linear_def affine_def)

lemma concat_nonempty:
  assumes "length plane = h" "list_all (\<lambda>row. length row = w) plane" "0 < h" "0 < w"
  shows "concat plane \<noteq> []"
proof -
  from assms(1,3) obtain r rs where "plane = r # rs" by (cases plane) auto
  with assms(2,4) show ?thesis by auto
qed

lemma adaptive_avg_pool_1_wf:
  assumes "length sample = c" "0 < c" "0 < h" "0 < w"
    and "list_all (\<lambda>plane. length plane = h \<and> list_all (\<lambda>row. length row = w) plane) sample"
  shows "adaptive_avg_pool_1 sample = Inr (channel_means sample)"
proof -
  have ne: "sample \<noteq> []" using assms(1,2) by auto
  have "mapE (\<lambda>plane. let vals = concat plane
                         in if vals = [] then Inl RuntimeError
                            else Inr (sum_list vals / real (length vals))) sample
      = Inr (map (\<lambda>plane. sum_list (concat plane) / real (length (concat plane))) sample)"
  proof (rule mapE_map)
    fix plane assume "plane \<in> set sample"
    with assms(5) have "length plane = h" "list_all (\<lambda>row. length row = w) plane"
      by (auto simp: list_all_iff)
    then have "concat plane \<noteq> []" using assms(3,4) by (rule concat_nonempty)
    then show "(let vals = concat plane
                         in if vals = [] then Inl RuntimeError
                            else Inr (sum_list vals / real (length vals)))
       = Inr (sum_list (concat plane) / real (length (concat plane)))"
      by (simp add: Let_def)
  qed
  with ne show ?thesis by (simp add: adaptive_avg_pool_1_def channel_means_def)
qed

lemma run_sequential_alloc:
  assumes "a < length h" "h ! a = T2 y" "mapE (apply_layer (ps i) m) y = Inr y'"
    and "\<not> writes_in_place m"
  shows "run_sequential ps i (m # ms) a h = run_sequential ps (Suc i) ms (length h) (h @ [T2 y'])"
  using assms by simp

lemma run_sequential_in_place:
  assumes "a < length h" "h ! a = T2 y" "mapE (apply_layer (ps i) m) y = Inr y'"
    and "writes_in_place m"
  shows "run_sequential ps i (m # ms) a h = run_sequential ps (Suc i) ms a (h[a := T2 y'])"
  using assms by simp

lemma run_fc:
  assumes "wf_linear c d (ps 0)" "wf_linear d c (ps 2)"
    and "list_all (\<lambda>row. int (length row) = c) y"
  shows "run_sequential ps 0 [Linear c d, ReLU6 True, Linear d c, Sigmoid] (length h) (h @ [T2 y])
         = Inr (length h + 3,
                h @ [T2 y,
                     T2 (map (\<lambda>r. map relu6 (affine (ps 0) r)) y),
                     T2 (map (\<lambda>r. affine (ps 2) (map relu6 (affine (ps 0) r))) y),
                     T2 (map (\<lambda>r. map sigmoid (affine (ps 2) (map relu6 (affine (ps 0) r)))) y)])"
proof -
  define y1 where "y1 = map (affine (ps 0)) y"
  define y2 where "y2 = map (map relu6) y1"
  define y3 where "y3 = map (affine (ps 2)) y2"
  define y4 where "y4 = map (map sigmoid) y3"
  let ?h0 = "h @ [T2 y]"
  let ?h1 = "?h0 @ [T2 y1]"
  let ?h2 = "?h0 @ [T2 y2]"
  let ?h3 = "?h2 @ [T2 y3]"
  let ?h4 = "?h3 @ [T2 y4]"
  have s0: "mapE (apply_layer (ps 0) (Linear c d)) y = Inr y1"
    unfolding y1_def using assms(3) by (intro mapE_map) (simp add: list_all_iff)
  have s1: "mapE (apply_layer (ps (Suc 0)) (ReLU6 True)) y1 = Inr y2"
    unfolding y2_def by (intro mapE_map) simp
  have len2: "int (length r) = d" if "r \<in> set y2" for r
    using that length_affine [OF assms(1)] by (auto simp: y2_def y1_def)
  have s2: "mapE (apply_layer (ps (Suc (Suc 0))) (Linear d c)) y2 = Inr y3"
    unfolding y3_def using len2 by (intro mapE_map) (simp add: numeral_2_eq_2)
  have s3: "mapE (apply_layer (ps (Suc (Suc (Suc 0)))) Sigmoid) y3 = Inr y4"
    unfolding y4_def by (intro mapE_map) simp
  have upd: "?h1[length ?h0 := T2 y2] = ?h2"
    by (rule list_update_length)
  have "run_sequential ps 0 [Linear c d, ReLU6 True, Linear d c, Sigmoid] (length h) ?h0
      = run_sequential ps (Suc 0) [ReLU6 True, Linear d c, Sigmoid] (length ?h0) ?h1"
    by (rule run_sequential_alloc [where y = y and y' = y1]) (simp_all add: s0 nth_append)
  also have "\<dots> = run_sequential ps (Suc (Suc 0)) [Linear d c, Sigmoid] (length ?h0) ?h2"
    unfolding upd [symmetric]
    by (rule run_sequential_in_place [where y = y1 and y' = y2]) (simp_all add: s1 nth_append)
  also have "\<dots> = run_sequential ps (Suc (Suc (Suc 0))) [Sigmoid] (length ?h2) ?h3"
    by (rule run_sequential_alloc [where y = y2 and y' = y3]) (simp_all add: s2 nth_append)
  also have "\<dots> = run_sequential ps (Suc (Suc (Suc (Suc 0)))) [] (length ?h3) ?h4"
    by (rule run_sequential_alloc [where y = y3 and y' = y4]) (simp_all add: s3 nth_append)
  also have "\<dots> = Inr (length h + 3, h @ [T2 y, T2 y2, T2 y3, T2 y4])"
    by simp
  finally show ?thesis
    by (simp add: y1_def y2_def y3_def y4_def comp_def)
qed


lemma se_gate_spec_range:
  assumes "wf_linear d c p2"
  shows "int (length (se_gate_spec p0 p2 sample)) = c"
    and "list_all (\<lambda>g. 0 \<le> g \<and> g \<le> 1) (se_gate_spec p0 p2 sample)"
proof -
  show "int (length (se_gate_spec p0 p2 sample)) = c"
    using length_affine [OF assms] by (simp add: se_gate_spec_def)
  have "0 \<le> sigmoid v \<and> sigmoid v \<le> 1" for v
    using sigmoid_bounds [of v] by simp
  then show "list_all (\<lambda>g. 0 \<le> g \<and> g \<le> 1) (se_gate_spec p0 p2 sample)"
    by (simp add: se_gate_spec_def list_all_iff)
qed

lemma scale_channels_nth:
  assumes "n < length x" "length y = length x" "k < length (x ! n)"
    and "length (y ! n) = length (x ! n)" "i < length (x ! n ! k)" "j < length (x ! n ! k ! i)"
  shows "scale_channels x y ! n ! k ! i ! j = x ! n ! k ! i ! j * y ! n ! k"
  using assms by (simp add: scale_channels_def)

text \<open>
  Claim C5. For a gate built for \<open>c\<close> channels and a feature map \<open>x\<close> of shape
  \<open>(b, c, h, w)\<close>, the forward pass returns \<open>x\<close> with every channel of every sample
  multiplied by one factor. The factors of a sample are the sigmoid of the two-layer
  bottleneck (\<open>c\<close> to \<open>c // 4\<close> features, the bounded nonlinearity, back to \<open>c\<close> features)
  applied to the channel-wise global average of the sample; there are \<open>c\<close> of them and
  each lies in \<open>[0, 1]\<close>. The store changes only by the cells the forward pass allocates:
  \<open>x\<close> and every other tensor that existed before are unchanged.
\<close>

theorem SEMobile_forward_gate:
  assumes "SEMobile_init c 4 = Inr self"
    and "ax < length heap" and "heap ! ax = T4 x"
    and "wf_tensor b (nat c) h w x" and "0 < c" and "0 < h" and "0 < w"
    and "wf_linear c (c div 4) (ps 0)" and "wf_linear (c div 4) c (ps 2)"
  shows "fc self = [Linear c (c div 4), ReLU6 True, Linear (c div 4) c, Sigmoid]
    \<and> (\<exists>heap'. SEMobile_forward self ps ax heap = Inr (length heap + 4, heap')
          \<and> heap' ! (length heap + 4) = T4 (scale_channels x (map (se_gate_spec (ps 0) (ps 2)) x))
          \<and> take (length heap) heap' = heap
          \<and> heap' ! ax = T4 x)
    \<and> list_all (\<lambda>sample. length (se_gate_spec (ps 0) (ps 2) sample) = nat c
                  \<and> list_all (\<lambda>g. 0 \<le> g \<and> g \<le> 1) (se_gate_spec (ps 0) (ps 2) sample)) x
    \<and> (\<forall>n k i j. n < b \<and> k < nat c \<and> i < h \<and> j < w \<longrightarrow>
          scale_channels x (map (se_gate_spec (ps 0) (ps 2)) x) ! n ! k ! i ! j
            = x ! n ! k ! i ! j * se_gate_spec (ps 0) (ps 2) (x ! n) ! k)"
proof -
  let ?g = "se_gate_spec (ps 0) (ps 2)"
  let ?y = "map channel_means x"
  let ?y2 = "map (\<lambda>r. map relu6 (affine (ps 0) r)) ?y"
  let ?y3 = "map (\<lambda>r. affine (ps 2) (map relu6 (affine (ps 0) r))) ?y"
  let ?y4 = "map (\<lambda>r. map sigmoid (affine (ps 2) (map relu6 (affine (ps 0) r)))) ?y"
  from assms(1) have fc: "fc self = [Linear c (c div 4), ReLU6 True, Linear (c div 4) c, Sigmoid]"
    by (auto simp: SEMobile_init_def)
  have len_x: "length x = b"
    using assms(4) by (simp add: wf_tensor_def)
  have sample: "length sample = nat c
      \<and> list_all (\<lambda>plane. length plane = h \<and> list_all (\<lambda>row. length row = w) plane) sample"
    if "sample \<in> set x" for sample
    using assms(4) that by (auto simp: wf_tensor_def list_all_iff)
  have pool: "mapE adaptive_avg_pool_1 x = Inr ?y"
  proof (rule mapE_map)
    fix sample assume "sample \<in> set x"
    from sample [OF this] show "adaptive_avg_pool_1 sample = Inr (channel_means sample)"
      using assms(5,6,7) by (intro adaptive_avg_pool_1_wf [of _ "nat c" h w]) simp_all
  qed
  have rows: "list_all (\<lambda>row. int (length row) = c) ?y"
    using sample assms(5) by (simp add: list_all_iff channel_means_def)
  define gs where "gs = map ?g x"
  define cells where "cells = [T2 ?y, T2 ?y2, T2 ?y3, T2 gs]"
  have y4: "?y4 = gs"
    by (simp add: gs_def se_gate_spec_def comp_def)
  have "run_sequential ps 0 (fc self) (length heap) (heap @ [T2 ?y])
      = Inr (length heap + 3, heap @ [T2 ?y, T2 ?y2, T2 ?y3, T2 ?y4])"
    unfolding fc using assms(8,9) rows by (rule run_fc)
  then have gate: "run_sequential ps 0 (fc self) (length heap) (heap @ [T2 ?y])
      = Inr (length heap + 3, heap @ cells)"
    unfolding y4 cells_def .
  have len_g: "length (?g sample) = nat c" for sample
    using se_gate_spec_range(1) [OF assms(9), of "ps 0" sample] by simp
  have view: "list_all2 (\<lambda>sample gs. length gs = length sample) x gs"
    using sample len_g by (simp add: gs_def list_all2_conv_all_nth)
  have last: "cells ! 3 = T2 gs"
    by (simp add: cells_def)
  have len_cells: "length cells = 4"
    by (simp add: cells_def)
  have "SEMobile_forward self ps ax heap
      = Inr (length heap + 4, (heap @ cells) @ [T4 (scale_channels x gs)])"
    unfolding SEMobile_forward_def using assms(2,3) view
    by (simp add: pool gate last len_cells del: append_assoc)
  moreover have "((heap @ cells) @ [T4 (scale_channels x gs)]) ! (length heap + 4)
      = T4 (scale_channels x gs)"
    using len_cells by (simp add: nth_append)
  moreover have "take (length heap) ((heap @ cells) @ [T4 (scale_channels x gs)]) = heap"
    by simp
  moreover have "((heap @ cells) @ [T4 (scale_channels x gs)]) ! ax = T4 x"
    using assms(2,3) by (simp add: nth_append)
  ultimately have run: "\<exists>heap'. SEMobile_forward self ps ax heap = Inr (length heap + 4, heap')
          \<and> heap' ! (length heap + 4) = T4 (scale_channels x (map ?g x))
          \<and> take (length heap) heap' = heap
          \<and> heap' ! ax = T4 x"
    unfolding gs_def by blast
  have range: "list_all (\<lambda>sample. length (?g sample) = nat c
                  \<and> list_all (\<lambda>g. 0 \<le> g \<and> g \<le> 1) (?g sample)) x"
    using len_g se_gate_spec_range(2) [OF assms(9), of "ps 0"] by (simp add: list_all_iff)
  have point: "\<forall>n k i j. n < b \<and> k < nat c \<and> i < h \<and> j < w \<longrightarrow>
          scale_channels x (map ?g x) ! n ! k ! i ! j = x ! n ! k ! i ! j * ?g (x ! n) ! k"
  proof (intro allI impI)
    fix n k i j assume idx: "n < b \<and> k < nat c \<and> i < h \<and> j < w"
    then have n: "n < length x" using len_x by simp
    then have mem: "x ! n \<in> set x" by simp
    from sample [OF mem] have lc: "length (x ! n) = nat c"
      and planes: "list_all (\<lambda>plane. length plane = h \<and> list_all (\<lambda>row. length row = w) plane) (x ! n)"
      by simp_all
    from planes idx lc have lh: "length (x ! n ! k) = h"
      and rws: "list_all (\<lambda>row. length row = w) (x ! n ! k)"
      by (simp_all add: list_all_length)
    from rws idx lh have lw: "length (x ! n ! k ! i) = w"
      by (simp add: list_all_length)
    have "scale_channels x (map ?g x) ! n ! k ! i ! j = x ! n ! k ! i ! j * map ?g x ! n ! k"
      using n idx lc lh lw len_g by (intro scale_channels_nth) simp_all
    then show "scale_channels x (map ?g x) ! n ! k ! i ! j = x ! n ! k ! i ! j * ?g (x ! n) ! k"
      using n by simp
  qed
  from fc run range point show ?thesis by blast
qed

theorem SEMobile_forward_gate_witness:
  "\<exists>self heap'. SEMobile_init 4 4 = Inr self
     \<and> fc self = [Linear 4 1, ReLU6 True, Linear 1 4, Sigmoid]
     \<and> SEMobile_forward self
         (\<lambda>i. if i = 0 then \<lparr> lin_weight = [[0, 0, 0, 0]], lin_bias = [0] \<rparr>
              else \<lparr> lin_weight = [[0], [0], [0], [0]], lin_bias = [0, 0, 0, 0] \<rparr>)
         0 [T4 [[[[1, 3]], [[2, 2]], [[3, 5]], [[4, 8]]]]]
       = Inr (5, heap')
     \<and> heap' ! 5 = T4 [[[[1 / 2, 3 / 2]], [[1, 1]], [[3 / 2, 5 / 2]], [[2, 4]]]]
     \<and> heap' ! 0 = T4 [[[[1, 3]], [[2, 2]], [[3, 5]], [[4, 8]]]]"
proof -
  let ?ps = "\<lambda>i::nat. if i = 0 then \<lparr> lin_weight = [[0, 0, 0, 0]], lin_bias = [0::real] \<rparr>
              else \<lparr> lin_weight = [[0], [0], [0], [0]], lin_bias = [0, 0, 0, 0] \<rparr>"
  let ?x = "[[[[1, 3]], [[2, 2]], [[3, 5]], [[4, 8]]]] :: tensor4"
  obtain self where self: "SEMobile_init 4 4 = Inr self"
    by (simp add: SEMobile_init_def)
  have "wf_tensor 1 (nat 4) 1 2 ?x"
    by (simp add: wf_tensor_def)
  moreover have "wf_linear 4 (4 div 4) (?ps 0)" "wf_linear (4 div 4) 4 (?ps 2)"
    by (simp_all add: wf_linear_def)
  ultimately obtain heap' where
    fc: "fc self = [Linear 4 (4 div 4), ReLU6 True, Linear (4 div 4) 4, Sigmoid]" and
    run: "SEMobile_forward self ?ps 0 [T4 ?x] = Inr (length [T4 ?x] + 4, heap')" and
    out: "heap' ! (length [T4 ?x] + 4)
            = T4 (scale_channels ?x (map (se_gate_spec (?ps 0) (?ps 2)) ?x))" and
    inp: "heap' ! 0 = T4 ?x"
    using SEMobile_forward_gate [OF self, of 0 "[T4 ?x]" ?x 1 1 2 ?ps] by auto
  have "se_gate_spec (?ps 0) (?ps 2) [[[1, 3]], [[2, 2]], [[3, 5]], [[4, 8]]]
      = [1 / 2, 1 / 2, 1 / 2, 1 / 2]"
    by (simp add: se_gate_spec_def affine_def channel_means_def relu6_def sigmoid_def)
  then have "scale_channels ?x (map (se_gate_spec (?ps 0) (?ps 2)) ?x)
      = [[[[1 / 2, 3 / 2]], [[1, 1]], [[3 / 2, 5 / 2]], [[2, 4]]]]"
    by (simp add: scale_channels_def)
  with out have "heap' ! 5 = T4 [[[[1 / 2, 3 / 2]], [[1, 1]], [[3 / 2, 5 / 2]], [[2, 4]]]]"
    by simp
  moreover from run have "SEMobile_forward self ?ps 0 [T4 ?x] = Inr (5, heap')"
    by simp
  ultimately show ?thesis using self fc inp by auto
qed

section \<open>Properties of the inverted residual block\<close>

lemma InvertedResidual_init_Inr:
  assumes "InvertedResidual_init inp oup strd t = Inr blk"
  shows "(strd = 1 \<or> strd = 2) \<and> stride blk = strd
         \<and> use_res_connect blk = (strd = 1 \<and> inp = oup)"
  using assms
  by (auto simp: InvertedResidual_init_def SEMobile_init_def Let_def split: if_splits)

lemma InvertedResidual_init_total:
  "strd = 1 \<or> strd = 2 \<Longrightarrow> \<exists>b. InvertedResidual_init inp oup strd t = Inr b"
  by (auto simp: InvertedResidual_init_def SEMobile_init_def Let_def)

text \<open>
  Claim C7. Constructing an inverted residual block with a stride other than 1 or 2
  fails with the assertion error, and with stride 1 or 2 the construction check passes:
  the constructor raises the assertion error exactly when the stride is neither 1 nor 2.
\<close>

theorem InvertedResidual_stride_check:
  "(InvertedResidual_init inp oup strd t = Inl AssertionError) = (strd \<noteq> 1 \<and> strd \<noteq> 2)"
  by (auto simp: InvertedResidual_init_def SEMobile_init_def Let_def)

theorem InvertedResidual_stride_check_witness:
  "InvertedResidual_init 16 24 3 6 = Inl AssertionError
   \<and> InvertedResidual_init 16 24 0 6 = Inl AssertionError
   \<and> InvertedResidual_init 16 24 (- 1) 6 = Inl AssertionError
   \<and> InvertedResidual_init 16 24 2 6 \<noteq> Inl AssertionError
   \<and> InvertedResidual_init 16 24 1 6 \<noteq> Inl AssertionError"
  using InvertedResidual_stride_check [of 16 24 3 6]
        InvertedResidual_stride_check [of 16 24 0 6]
        InvertedResidual_stride_check [of 16 24 "- 1" 6]
        InvertedResidual_stride_check [of 16 24 2 6]
        InvertedResidual_stride_check [of 16 24 1 6]
  by simp

text \<open>
  Claim C1. For every constructed inverted residual block, the forward pass adds the
  input to the transformed output (convolution stack, then the gate) if and only if the
  stride is 1 and the input channel count equals the output channel count; otherwise it
  returns the transformed output itself, with no addition.
\<close>

theorem InvertedResidual_forward_residual:
  assumes "InvertedResidual_init inp oup strd t = Inr blk"
  shows "use_res_connect blk = (strd = 1 \<and> inp = oup)
         \<and> InvertedResidual_forward run_seq run_se add blk x =
             (if strd = 1 \<and> inp = oup
              then bindE (bindE (run_seq (conv blk) x) (run_se (se blk))) (add x)
              else bindE (run_seq (conv blk) x) (run_se (se blk)))"
proof -
  from assms have res: "use_res_connect blk = (strd = 1 \<and> inp = oup)"
    by (simp add: InvertedResidual_init_Inr)
  have assoc: "bindE (run_seq (conv blk) x) (\<lambda>out. bindE (run_se (se blk) out) (add x))
               = bindE (bindE (run_seq (conv blk) x) (run_se (se blk))) (add x)"
    by (cases "run_seq (conv blk) x") simp_all
  show ?thesis
    using res assoc by (simp add: InvertedResidual_forward_def)
qed

theorem InvertedResidual_forward_residual_witness:
  "(\<exists>blk. InvertedResidual_init 32 32 1 6 = Inr blk \<and> use_res_connect blk
      \<and> InvertedResidual_forward (\<lambda>ls x. Inr (2 * x)) (\<lambda>s x. Inr (x + 1)) (\<lambda>x y. Inr (x + y))
           blk (5::int) = Inr 16)
   \<and> (\<exists>blk. InvertedResidual_init 32 32 2 6 = Inr blk \<and> \<not> use_res_connect blk
      \<and> InvertedResidual_forward (\<lambda>ls x. Inr (2 * x)) (\<lambda>s x. Inr (x + 1)) (\<lambda>x y. Inr (x + y))
           blk (5::int) = Inr 11)
   \<and> (\<exists>blk. InvertedResidual_init 16 24 1 6 = Inr blk \<and> \<not> use_res_connect blk
      \<and> InvertedResidual_forward (\<lambda>ls x. Inr (2 * x)) (\<lambda>s x. Inr (x + 1)) (\<lambda>x y. Inr (x + y))
           blk (5::int) = Inr 11)"
proof -
  obtain b1 where b1: "InvertedResidual_init 32 32 1 6 = Inr b1"
    using InvertedResidual_init_total [of 1 32 32 6] by auto
  obtain b2 where b2: "InvertedResidual_init 32 32 2 6 = Inr b2"
    using InvertedResidual_init_total [of 2 32 32 6] by auto
  obtain b3 where b3: "InvertedResidual_init 16 24 1 6 = Inr b3"
    using InvertedResidual_init_total [of 1 16 24 6] by auto
  have "use_res_connect b1
      \<and> InvertedResidual_forward (\<lambda>ls x. Inr (2 * x)) (\<lambda>s x. Inr (x + 1)) (\<lambda>x y. Inr (x + y))
           b1 (5::int) = Inr 16"
    using InvertedResidual_forward_residual
      [OF b1, of "\<lambda>ls x. Inr (2 * x)" "\<lambda>s x. Inr (x + 1)" "\<lambda>x y. Inr (x + y)" "5::int"]
    by simp
  moreover have "\<not> use_res_connect b2
      \<and> InvertedResidual_forward (\<lambda>ls x. Inr (2 * x)) (\<lambda>s x. Inr (x + 1)) (\<lambda>x y. Inr (x + y))
           b2 (5::int) = Inr 11"
    using InvertedResidual_forward_residual
      [OF b2, of "\<lambda>ls x. Inr (2 * x)" "\<lambda>s x. Inr (x + 1)" "\<lambda>x y. Inr (x + y)" "5::int"]
    by simp
  moreover have "\<not> use_res_connect b3
      \<and> InvertedResidual_forward (\<lambda>ls x. Inr (2 * x)) (\<lambda>s x. Inr (x + 1)) (\<lambda>x y. Inr (x + y))
           b3 (5::int) = Inr 11"
    using InvertedResidual_forward_residual
      [OF b3, of "\<lambda>ls x. Inr (2 * x)" "\<lambda>s x. Inr (x + 1)" "\<lambda>x y. Inr (x + y)" "5::int"]
    by simp
  ultimately show ?thesis using b1 b2 b3 by blast
qed

section \<open>Properties of the network constructor\<close>

lemma bindE_eq_Inr: "bindE m f = Inr y \<longleftrightarrow> (\<exists>a. m = Inr a \<and> f a = Inr y)"
  by (cases m) simp_all

lemma bindE_eq_Inl: "bindE m f = Inl e \<longleftrightarrow> m = Inl e \<or> (\<exists>a. m = Inr a \<and> f a = Inl e)"
  by (cases m) simp_all

lemma SEMobileNetV2_init_Inr:
  assumes "SEMobileNetV2_init n_class input_size w lc = Inr net"
  shows "input_size mod 32 = 0"
    and "(if float_gt_one w then int_of_product lc w else Inr lc) = Inr (last_channel net)"
    and "\<exists>ic0 feats ic. int_of_product 32 w = Inr ic0
           \<and> build_stages interverted_residual_setting w
               ([Sequential (conv_bn 3 ic0 2)], ic0) = Inr (feats, ic)
           \<and> features net = feats @ [Sequential (conv_1x1_bn ic (last_channel net))]"
    and "classifier net = [Dropout 0.2, Linear (last_channel net) n_class]"
    and "initialize_weights (modules (features net) (classifier net)) = Inr (params net)"
proof -
  from assms show "input_size mod 32 = 0"
    by (auto simp: SEMobileNetV2_init_def split: if_splits)
  with assms obtain ic0 last feats ic ps where
    ic0: "int_of_product 32 w = Inr ic0" and
    last: "(if float_gt_one w then int_of_product lc w else Inr lc) = Inr last" and
    build: "build_stages interverted_residual_setting w
              ([Sequential (conv_bn 3 ic0 2)], ic0) = Inr (feats, ic)" and
    init: "initialize_weights
             (modules (feats @ [Sequential (conv_1x1_bn ic last)]) [Dropout 0.2, Linear last n_class])
           = Inr ps" and
    net: "net = \<lparr> last_channel = last,
                  features = feats @ [Sequential (conv_1x1_bn ic last)],
                  classifier = [Dropout 0.2, Linear last n_class], params = ps \<rparr>"
    unfolding SEMobileNetV2_init_def Let_def
    by (auto simp: bindE_eq_Inr simp del: build_stages.simps)
  from last net show "(if float_gt_one w then int_of_product lc w else Inr lc)
      = Inr (last_channel net)"
    by simp
  from ic0 build net show "\<exists>ic0 feats ic. int_of_product 32 w = Inr ic0
           \<and> build_stages interverted_residual_setting w
               ([Sequential (conv_bn 3 ic0 2)], ic0) = Inr (feats, ic)
           \<and> features net = feats @ [Sequential (conv_1x1_bn ic (last_channel net))]"
    by auto
  from net show "classifier net = [Dropout 0.2, Linear (last_channel net) n_class]"
    by simp
  from init net show "initialize_weights (modules (features net) (classifier net))
      = Inr (params net)"
    by simp
qed

lemma initialize_weights_no_assert: "initialize_weights ms \<noteq> Inl AssertionError"
proof (induction ms)
  case Nil
  show ?case by simp
next
  case (Cons m ms)
  have "initialize_layer m st \<noteq> Inl AssertionError" for st
    by (cases m; cases st) (simp_all add: Let_def)
  then have "initialize_layer m (default_params m) \<noteq> Inl AssertionError" .
  with Cons show ?case
    by (cases "initialize_layer m (default_params m)"; cases "initialize_weights ms") auto
qed

lemma int_of_product_no_assert: "int_of_product c w \<noteq> Inl AssertionError"
proof -
  have py: "py_int f \<noteq> Inl AssertionError" for f
    by (cases f) simp_all
  have conv: "float_of_int c \<noteq> Inl AssertionError"
    by (simp add: float_of_int_def split: pyfloat.splits)
  show ?thesis
    using py conv
    by (auto simp: int_of_product_def int_times_float_def bindE_eq_Inl)
qed

lemma build_stage_total:
  "s = 1 \<or> s = 2 \<Longrightarrow> \<exists>st'. build_stage t oc s idx st = Inr st'"
proof (induction idx arbitrary: st)
  case Nil
  show ?case by simp
next
  case (Cons i idx)
  obtain feats ic where st: "st = (feats, ic)" by (cases st)
  from Cons.prems obtain b where
    "(if i = 0 then InvertedResidual_init ic oc s t else InvertedResidual_init ic oc 1 t) = Inr b"
    using InvertedResidual_init_total [of s ic oc t] InvertedResidual_init_total [of 1 ic oc t]
    by (cases "i = 0") auto
  with Cons.IH [OF Cons.prems] st show ?case by simp
qed

lemma build_stages_no_assert:
  "\<forall>(t, c, n, s) \<in> set rows. s = 1 \<or> s = 2 \<Longrightarrow>
     build_stages rows w st \<noteq> Inl AssertionError"
proof (induction rows arbitrary: st)
  case Nil
  show ?case by simp
next
  case (Cons row rows)
  obtain t c n s where row: "row = (t, c, n, s)" by (cases row)
  with Cons.prems have s: "s = 1 \<or> s = 2" by simp
  from Cons.prems have rest: "\<forall>(t, c, n, s) \<in> set rows. s = 1 \<or> s = 2" by simp
  show ?case
  proof (cases "int_of_product c w")
    case (Inl e)
    with int_of_product_no_assert [of c w] have "e \<noteq> AssertionError" by auto
    with Inl row show ?thesis by simp
  next
    case (Inr oc)
    from s obtain st1 where "build_stage t oc s [0..<nat n] st = Inr st1"
      using build_stage_total by blast
    with Inr row Cons.IH [OF rest, of st1] show ?thesis by simp
  qed
qed

lemma setting_strides: "\<forall>(t, c, n, s) \<in> set interverted_residual_setting. s = 1 \<or> s = 2"
  by (simp add: interverted_residual_setting_def)

text \<open>
  Claim C8. Constructing the network with an \<open>input_size\<close> that is not divisible by 32
  fails with the assertion error, and an \<open>input_size\<close> that is a multiple of 32 passes
  the check: the constructor raises the assertion error exactly when \<open>input_size\<close> is
  not a multiple of 32.
\<close>

theorem SEMobileNetV2_input_size_check:
  "(SEMobileNetV2_init n_class input_size w lc = Inl AssertionError) = (input_size mod 32 \<noteq> 0)"
proof (cases "input_size mod 32 = 0")
  case False
  then show ?thesis by (simp add: SEMobileNetV2_init_def)
next
  case True
  have last: "(if float_gt_one w then int_of_product lc w else Inr lc) \<noteq> Inl AssertionError"
    using int_of_product_no_assert [of lc w] by simp
  have "SEMobileNetV2_init n_class input_size w lc \<noteq> Inl AssertionError"
    unfolding SEMobileNetV2_init_def Let_def
    using True last int_of_product_no_assert [of 32 w] initialize_weights_no_assert
      build_stages_no_assert [OF setting_strides]
    by (auto simp: bindE_eq_Inl simp del: build_stages.simps)
  with True show ?thesis by simp
qed

theorem SEMobileNetV2_input_size_check_witness:
  "SEMobileNetV2_init 1000 225 (Finite 1 0) 1280 = Inl AssertionError
   \<and> SEMobileNetV2_init 1000 224 (Finite 1 0) 1280 \<noteq> Inl AssertionError
   \<and> SEMobileNetV2_init 1000 0 (Finite 1 0) 1280 \<noteq> Inl AssertionError"
  using SEMobileNetV2_input_size_check [of 1000 225 "Finite 1 0" 1280]
        SEMobileNetV2_input_size_check [of 1000 224 "Finite 1 0" 1280]
        SEMobileNetV2_input_size_check [of 1000 0 "Finite 1 0" 1280]
  by simp

text \<open>
  The products \<open>int(c * width_mult)\<close> of the constructor at four width multipliers:
  \<open>1.0\<close>, \<open>1.5\<close>, \<open>0.5\<close> and \<open>1.4\<close>, the double \<open>3152519739159347 * 2 ^ -51\<close>.
\<close>

lemma products_one:
  "int_of_product 32 (Finite 1 0) = Inr 32" "int_of_product 16 (Finite 1 0) = Inr 16"
  "int_of_product 24 (Finite 1 0) = Inr 24" "int_of_product 64 (Finite 1 0) = Inr 64"
  "int_of_product 96 (Finite 1 0) = Inr 96" "int_of_product 160 (Finite 1 0) = Inr 160"
  "int_of_product 320 (Finite 1 0) = Inr 320"
  by code_simp+

lemma products_wide:
  "int_of_product 32 (Finite 3 (- 1)) = Inr 48" "int_of_product 16 (Finite 3 (- 1)) = Inr 24"
  "int_of_product 24 (Finite 3 (- 1)) = Inr 36" "int_of_product 64 (Finite 3 (- 1)) = Inr 96"
  "int_of_product 96 (Finite 3 (- 1)) = Inr 144" "int_of_product 160 (Finite 3 (- 1)) = Inr 240"
  "int_of_product 320 (Finite 3 (- 1)) = Inr 480" "int_of_product 1280 (Finite 3 (- 1)) = Inr 1920"
  by code_simp+

lemma products_narrow:
  "int_of_product 32 (Finite 1 (- 1)) = Inr 16" "int_of_product 16 (Finite 1 (- 1)) = Inr 8"
  "int_of_product 24 (Finite 1 (- 1)) = Inr 12" "int_of_product 64 (Finite 1 (- 1)) = Inr 32"
  "int_of_product 96 (Finite 1 (- 1)) = Inr 48" "int_of_product 160 (Finite 1 (- 1)) = Inr 80"
  "int_of_product 320 (Finite 1 (- 1)) = Inr 160"
  by code_simp+

lemma products_1_4:
  "int_of_product 32 (Finite 3152519739159347 (- 51)) = Inr 44"
  "int_of_product 16 (Finite 3152519739159347 (- 51)) = Inr 22"
  "int_of_product 24 (Finite 3152519739159347 (- 51)) = Inr 33"
  "int_of_product 64 (Finite 3152519739159347 (- 51)) = Inr 89"
  "int_of_product 96 (Finite 3152519739159347 (- 51)) = Inr 134"
  "int_of_product 160 (Finite 3152519739159347 (- 51)) = Inr 224"
  "int_of_product 320 (Finite 3152519739159347 (- 51)) = Inr 448"
  "int_of_product 1280 (Finite 3152519739159347 (- 51)) = Inr 1792"
  by code_simp+

text \<open>
  Rounding and the exceptional cases of \<open>int(c * width_mult)\<close>: \<open>100 * 1.15\<close> is the
  double just below 115 and \<open>1280 * 1.15\<close> is 1472 exactly; truncation is towards zero;
  an infinite product, a NaN and an integer too large for a double raise.
\<close>

lemma int_of_product_examples:
  "int_of_product 100 (Finite 2589569785738035 (- 51)) = Inr 114"
  "int_of_product 1280 (Finite 2589569785738035 (- 51)) = Inr 1472"
  "int_of_product (- 7) (Finite 3152519739159347 (- 51)) = Inr (- 9)"
  "int_of_product 32 (Finite 5764607523034235 (- 59)) = Inr 0"
  "int_of_product 32 PosInf = Inl OverflowError"
  "int_of_product 32 NaN = Inl ValueError"
  "int_of_product 0 NegInf = Inl ValueError"
  "int_of_product (2 ^ 1024) (Finite 1 0) = Inl OverflowError"
  by code_simp+

lemma SEMobileNetV2_default_Inr: "\<exists>net. SEMobileNetV2_init 1000 224 (Finite 1 0) 1280 = Inr net"
  by (simp add: SEMobileNetV2_init_def interverted_residual_setting_def products_one
      InvertedResidual_init_def SEMobile_init_def Let_def upt_rec modules_def
      modules_InvertedResidual_def modules_SEMobile_def conv_bn_def conv_1x1_bn_def
      nn_Conv2d_def)

lemma SEMobileNetV2_wide_Inr: "\<exists>net. SEMobileNetV2_init 10 64 (Finite 3 (- 1)) 1280 = Inr net"
  by (simp add: SEMobileNetV2_init_def interverted_residual_setting_def products_wide
      InvertedResidual_init_def SEMobile_init_def Let_def upt_rec modules_def
      modules_InvertedResidual_def modules_SEMobile_def conv_bn_def conv_1x1_bn_def
      nn_Conv2d_def)

lemma SEMobileNetV2_narrow_Inr: "\<exists>net. SEMobileNetV2_init 10 64 (Finite 1 (- 1)) 1280 = Inr net"
  by (simp add: SEMobileNetV2_init_def interverted_residual_setting_def products_narrow
      InvertedResidual_init_def SEMobile_init_def Let_def upt_rec modules_def
      modules_InvertedResidual_def modules_SEMobile_def conv_bn_def conv_1x1_bn_def
      nn_Conv2d_def)

lemma SEMobileNetV2_1_4_Inr:
  "\<exists>net. SEMobileNetV2_init 10 64 (Finite 3152519739159347 (- 51)) 1280 = Inr net"
  by (simp add: SEMobileNetV2_init_def interverted_residual_setting_def products_1_4
      InvertedResidual_init_def SEMobile_init_def Let_def upt_rec modules_def
      modules_InvertedResidual_def modules_SEMobile_def conv_bn_def conv_1x1_bn_def
      nn_Conv2d_def)

lemma float_le_one_not_gt: "float_le_one w \<Longrightarrow> \<not> float_gt_one w"
  by (cases w) (auto split: if_splits)

text \<open>
  Claim C4. For every width multiplier \<open>w\<close>, the head width of a constructed network
  is \<open>int(last_channel * w)\<close>, the truncated float product, when \<open>w > 1.0\<close>, and the
  unscaled \<open>last_channel\<close> when \<open>w <= 1.0\<close>; in particular it is not shrunk for \<open>w < 1\<close>.
  The head width is the output width of the 1x1 head and the input width of the
  classifier.
\<close>

theorem SEMobileNetV2_last_channel:
  assumes "SEMobileNetV2_init n_class input_size w lc = Inr net"
  shows "(float_gt_one w \<longrightarrow> int_of_product lc w = Inr (last_channel net))
         \<and> (float_le_one w \<longrightarrow> last_channel net = lc)
         \<and> (\<exists>feats ic. features net = feats @ [Sequential (conv_1x1_bn ic (last_channel net))])
         \<and> classifier net = [Dropout 0.2, Linear (last_channel net) n_class]"
proof -
  have last: "(if float_gt_one w then int_of_product lc w else Inr lc) = Inr (last_channel net)"
    using assms by (rule SEMobileNetV2_init_Inr(2))
  have "float_gt_one w \<longrightarrow> int_of_product lc w = Inr (last_channel net)"
    using last by (auto split: if_splits)
  moreover have "float_le_one w \<longrightarrow> last_channel net = lc"
    using last float_le_one_not_gt [of w] by auto
  moreover have "\<exists>feats ic. features net = feats @ [Sequential (conv_1x1_bn ic (last_channel net))]"
    using SEMobileNetV2_init_Inr(3) [OF assms] by blast
  moreover have "classifier net = [Dropout 0.2, Linear (last_channel net) n_class]"
    using assms by (rule SEMobileNetV2_init_Inr(4))
  ultimately show ?thesis by simp
qed

theorem SEMobileNetV2_last_channel_witness:
  "(\<exists>net. SEMobileNetV2_init 1000 224 (Finite 1 0) 1280 = Inr net \<and> last_channel net = 1280)
   \<and> (\<exists>net. SEMobileNetV2_init 10 64 (Finite 3 (- 1)) 1280 = Inr net \<and> last_channel net = 1920)
   \<and> (\<exists>net. SEMobileNetV2_init 10 64 (Finite 1 (- 1)) 1280 = Inr net \<and> last_channel net = 1280)
   \<and> (\<exists>net. SEMobileNetV2_init 10 64 (Finite 3152519739159347 (- 51)) 1280 = Inr net
          \<and> last_channel net = 1792)"
proof -
  obtain n1 where n1: "SEMobileNetV2_init 1000 224 (Finite 1 0) 1280 = Inr n1"
    using SEMobileNetV2_default_Inr by blast
  obtain n2 where n2: "SEMobileNetV2_init 10 64 (Finite 3 (- 1)) 1280 = Inr n2"
    using SEMobileNetV2_wide_Inr by blast
  obtain n3 where n3: "SEMobileNetV2_init 10 64 (Finite 1 (- 1)) 1280 = Inr n3"
    using SEMobileNetV2_narrow_Inr by blast
  obtain n4 where n4: "SEMobileNetV2_init 10 64 (Finite 3152519739159347 (- 51)) 1280 = Inr n4"
    using SEMobileNetV2_1_4_Inr by blast
  have "last_channel n1 = 1280"
    using SEMobileNetV2_last_channel [OF n1] by simp
  moreover have "last_channel n2 = 1920"
    using SEMobileNetV2_last_channel [OF n2] by (simp add: products_wide)
  moreover have "last_channel n3 = 1280"
    using SEMobileNetV2_last_channel [OF n3] by simp
  moreover have "last_channel n4 = 1792"
    using SEMobileNetV2_last_channel [OF n4] by (simp add: products_1_4)
  ultimately show ?thesis using n1 n2 n3 n4 by blast
qed

subsection \<open>Stage strides and channel chaining\<close>










subsection \<open>Weight initialisation\<close>

lemma initialize_layer_policy:
  assumes "initialize_layer m (default_params m) = Inr (weight, bias)"
  shows "init_policy m weight bias"
proof (cases m)
  case (Conv2d i oc ks s p g b)
  define n where "n = fst ks * snd ks * oc"
  have "initialize_layer m (default_params m) =
      (if n = 0 then Inl ZeroDivisionError
       else if n < 0 then Inl ValueError
       else Inr (Normal_init 0 (sqrt (2 / of_int n)), if b then Zero_init else No_param))"
    using Conv2d by (simp add: Let_def n_def)
  with assms have pos: "0 < n"
    and wt: "weight = Normal_init 0 (sqrt (2 / of_int n))"
    and bs: "bias = (if b then Zero_init else No_param)"
    by (simp_all split: if_splits)
  have "(sqrt (2 / of_int n))\<^sup>2 = 2 / of_int n"
    using pos by simp
  then have "(sqrt (2 / of_int n))\<^sup>2 = 2 / (of_int (fst ks) * of_int (snd ks) * of_int oc)"
    by (simp add: n_def)
  moreover have "0 \<le> sqrt (2 / real_of_int n)"
    using pos by simp
  ultimately have "\<exists>std. weight = Normal_init 0 std \<and> 0 \<le> std
      \<and> std\<^sup>2 = 2 / (of_int (fst ks) * of_int (snd ks) * of_int oc)"
    using wt by blast
  then show ?thesis
    using Conv2d bs by (simp add: init_policy_def)
qed (use assms in \<open>auto simp: init_policy_def\<close>)

lemma initialize_weights_Inr:
  assumes "initialize_weights ms = Inr ps"
  shows "map fst ps = ms \<and> (\<forall>(m, weight, bias) \<in> set ps. init_policy m weight bias)"
  using assms
proof (induction ms arbitrary: ps)
  case Nil
  then show ?case by auto
next
  case (Cons m ms)
  from Cons.prems obtain st rest where
    st: "initialize_layer m (default_params m) = Inr st" and
    rest: "initialize_weights ms = Inr rest" and
    ps: "ps = (m, st) # rest"
    by (auto simp: bindE_eq_Inr)
  obtain weight bias where "st = (weight, bias)" by (cases st)
  with st have "init_policy m weight bias"
    using initialize_layer_policy by simp
  with Cons.IH [OF rest] ps \<open>st = (weight, bias)\<close> show ?case by simp
qed

text \<open>
  Claim C9. After construction every layer of the network has been visited by the
  initialisation, and its parameters are in the state the policy prescribes: a
  convolution weight is drawn by \<open>normal_\<close> with mean 0 and a standard deviation whose
  square is \<open>2 / (kernel_height * kernel_width * out_channels)\<close>, a convolution bias that
  is present is zeroed; a normalisation layer has scale filled with 1 and shift zeroed; a
  linear layer has its weight drawn by \<open>normal_\<close> with mean 0 and standard deviation 0.01
  and its bias zeroed.
\<close>

theorem SEMobileNetV2_initialize_weights:
  assumes "SEMobileNetV2_init n_class input_size w lc = Inr net"
  shows "map fst (params net) = modules (features net) (classifier net)
         \<and> (\<forall>(m, weight, bias) \<in> set (params net). init_policy m weight bias)"
  using initialize_weights_Inr [OF SEMobileNetV2_init_Inr(5) [OF assms]] .

theorem SEMobileNetV2_initialize_weights_witness:
  "\<exists>net. SEMobileNetV2_init 1000 224 (Finite 1 0) 1280 = Inr net
     \<and> map fst (params net) = modules (features net) (classifier net)
     \<and> list_all (\<lambda>(m, weight, bias). init_policy m weight bias) (params net)
     \<and> init_policy (Linear 1280 1000) (Normal_init 0 0.01) Zero_init
     \<and> Linear 1280 1000 \<in> set (map fst (params net))"
proof -
  obtain net where net: "SEMobileNetV2_init 1000 224 (Finite 1 0) 1280 = Inr net"
    using SEMobileNetV2_default_Inr by blast
  have lc: "last_channel net = 1280"
    using SEMobileNetV2_init_Inr(2) [OF net] by simp
  have cls: "classifier net = [Dropout 0.2, Linear 1280 1000]"
    using SEMobileNetV2_init_Inr(4) [OF net] lc by simp
  from SEMobileNetV2_initialize_weights [OF net] have
    m: "map fst (params net) = modules (features net) (classifier net)" and
    p: "\<forall>(m, weight, bias) \<in> set (params net). init_policy m weight bias"
    by blast+
  from p have "list_all (\<lambda>(m, weight, bias). init_policy m weight bias) (params net)"
    by (simp add: list_all_iff)
  moreover have "Linear 1280 1000 \<in> set (map fst (params net))"
    unfolding m using cls by (simp add: modules_def)
  moreover have "init_policy (Linear 1280 1000) (Normal_init 0 0.01) Zero_init"
    by (simp add: init_policy_def)
  ultimately show ?thesis using net m by blast
qed

section \<open>Properties of the pretrained weight loader\<close>

lemma prefix_append_Cons:
  "prefix (x # xs) (a @ ys) = (case a of [] \<Rightarrow> prefix (x # xs) ys | c # a' \<Rightarrow> c = x \<and> prefix xs (a' @ ys))"
  by (cases a) auto

lemma module_prefix_straddle:
  "prefix ''module.'' (a @ ''module.'' @ b) \<longleftrightarrow> a = [] \<or> prefix ''module.'' a"
  by (auto simp: prefix_append_Cons prefix_Cons split: list.splits)

lemma str_replace_skip_gen:
  assumes "old \<noteq> []"
    and "\<And>a b. prefix old (a @ old @ b) \<Longrightarrow> a = [] \<or> prefix old a"
    and "\<not> str_contains old a"
  shows "str_replace old [] (a @ old @ b) = a @ str_replace old [] b"
  using assms(3)
proof (induction a)
  case Nil
  obtain c cs where "old = c # cs" using assms(1) by (cases old) auto
  then show ?case by simp
next
  case (Cons c a)
  then have np: "\<not> prefix old (c # a)" and nc: "\<not> str_contains old a"
    by simp_all
  have "\<not> prefix old ((c # a) @ old @ b)"
    using np assms(2) [of "c # a" b] by auto
  then have "\<not> prefix old (c # (a @ old @ b))" by simp
  then have "str_replace old [] (c # (a @ old @ b)) = c # str_replace old [] (a @ old @ b)"
    using assms(1) by simp
  with Cons.IH [OF nc] show ?case by simp
qed

lemma str_replace_skip:
  "\<not> str_contains ''module.'' a \<Longrightarrow>
     str_replace ''module.'' [] (a @ ''module.'' @ b) = a @ str_replace ''module.'' [] b"
  by (rule str_replace_skip_gen) (use module_prefix_straddle in blast)+

lemma str_replace_absent:
  "old \<noteq> [] \<Longrightarrow> \<not> str_contains old s \<Longrightarrow> str_replace old new s = s"
  by (induction s) auto

lemma str_replace_join:
  "\<forall>s \<in> set segs. \<not> str_contains ''module.'' s \<Longrightarrow>
     str_replace ''module.'' [] (join ''module.'' segs) = concat segs"
proof (induction "''module.''" segs rule: join.induct)
  case 1
  show ?case by simp
next
  case (2 s)
  then show ?case by (simp add: str_replace_absent)
next
  case (3 s t ss)
  then show ?case using str_replace_skip [of s "join ''module.'' (t # ss)"] by simp
qed

lemma str_replace_prefixed:
  "str_replace ''module.'' [] (''module.'' @ k) = str_replace ''module.'' [] k"
  by simp

lemma keys_od_set: "fst ` set (od_set k v kvs) = insert k (fst ` set kvs)"
proof (induction kvs)
  case Nil
  show ?case by simp
next
  case (Cons kv kvs)
  obtain k' v' where kv: "kv = (k', v')" by (cases kv)
  show ?case
  proof (cases "k' = k")
    case True
    with kv show ?thesis by auto
  next
    case False
    with kv Cons.IH show ?thesis by auto
  qed
qed

lemma keys_strip_loop:
  "fst ` set (strip_loop items acc)
   = fst ` set acc \<union> str_replace ''module.'' [] ` fst ` set items"
  by (induction items acc rule: strip_loop.induct) (simp_all add: keys_od_set Let_def del: str_replace.simps)

lemma od_set_fresh: "k \<notin> set (map fst kvs) \<Longrightarrow> od_set k v kvs = kvs @ [(k, v)]"
  by (induction kvs) auto

lemma strip_loop_unchanged:
  "distinct (map fst acc @ map fst items) \<Longrightarrow>
   \<forall>k \<in> set (map fst items). \<not> str_contains ''module.'' k \<Longrightarrow>
   strip_loop items acc = acc @ items"
proof (induction items arbitrary: acc)
  case Nil
  show ?case by simp
next
  case (Cons item items)
  obtain k v where item: "item = (k, v)" by (cases item)
  have k: "str_replace ''module.'' [] k = k"
    using Cons.prems(2) item by (simp add: str_replace_absent)
  have fresh: "k \<notin> set (map fst acc)"
    using Cons.prems(1) item by auto
  have "distinct (map fst (acc @ [(k, v)]) @ map fst items)"
    using Cons.prems(1) item by auto
  moreover have "\<forall>k \<in> set (map fst items). \<not> str_contains ''module.'' k"
    using Cons.prems(2) by simp
  ultimately have "strip_loop items (acc @ [(k, v)]) = (acc @ [(k, v)]) @ items"
    by (rule Cons.IH)
  then show ?case using fresh item k by (simp add: od_set_fresh)
qed

lemma strip_loop_prefixed:
  "strip_loop (map (\<lambda>(k, v). (''module.'' @ k, v)) U) acc = strip_loop U acc"
  by (induction U acc rule: strip_loop.induct) simp_all


lemma strip_loop_distinct:
  "distinct (map fst acc @ map (\<lambda>(k, v). str_replace ''module.'' [] k) items) \<Longrightarrow>
   strip_loop items acc = acc @ map (\<lambda>(k, v). (str_replace ''module.'' [] k, v)) items"
proof (induction items arbitrary: acc)
  case Nil
  show ?case by simp
next
  case (Cons item items)
  obtain k v where item: "item = (k, v)" by (cases item)
  define name where "name = str_replace ''module.'' [] k"
  have fresh: "name \<notin> set (map fst acc)"
    using Cons.prems item by (auto simp: name_def)
  have "distinct (map fst (acc @ [(name, v)]) @ map (\<lambda>(k, v). str_replace ''module.'' [] k) items)"
    using Cons.prems item by (auto simp: name_def)
  then have "strip_loop items (acc @ [(name, v)])
      = (acc @ [(name, v)]) @ map (\<lambda>(k, v). (str_replace ''module.'' [] k, v)) items"
    by (rule Cons.IH)
  then show ?case using fresh item by (simp add: od_set_fresh name_def del: str_replace.simps)
qed

lemma handle_DataParallel_Cons:
  "handle_DataParallel ((k0, v0) # rest) =
     (if str_contains ''module.'' k0 then Inr (strip_loop ((k0, v0) # rest) [])
      else Inr ((k0, v0) # rest))"
  by (simp add: handle_DataParallel_def del: strip_loop.simps str_contains.simps)

text \<open>
  Claim C10. The loader decides on the first key alone whether to normalise. If the
  first key does not contain \<open>module.\<close>, the state dict is passed on unchanged, whatever
  the other keys contain. If it does, every key is replaced by the result of
  \<open>replace('module.', '')\<close> (keeping its value when the new names are distinct), and that
  replacement removes every occurrence of \<open>module.\<close> in the key, wherever it stands: a key
  made of pieces free of \<open>module.\<close> that are joined by \<open>module.\<close> becomes the
  concatenation of the pieces.
\<close>

theorem handle_DataParallel_first_key:
  "(\<not> str_contains ''module.'' k0 \<longrightarrow>
      handle_DataParallel ((k0, v0) # rest) = Inr ((k0, v0) # rest))
   \<and> (str_contains ''module.'' k0 \<longrightarrow>
        handle_DataParallel ((k0, v0) # rest) = Inr (strip_loop ((k0, v0) # rest) [])
        \<and> fst ` set (strip_loop ((k0, v0) # rest) [])
            = str_replace ''module.'' [] ` fst ` set ((k0, v0) # rest)
        \<and> (distinct (map (\<lambda>(k, v). str_replace ''module.'' [] k) ((k0, v0) # rest)) \<longrightarrow>
             strip_loop ((k0, v0) # rest) []
               = map (\<lambda>(k, v). (str_replace ''module.'' [] k, v)) ((k0, v0) # rest)))
   \<and> ((\<forall>s \<in> set segs. \<not> str_contains ''module.'' s) \<longrightarrow>
        str_replace ''module.'' [] (join ''module.'' segs) = concat segs)"
proof (intro conjI impI)
  assume "\<not> str_contains ''module.'' k0"
  then show "handle_DataParallel ((k0, v0) # rest) = Inr ((k0, v0) # rest)"
    by (simp only: handle_DataParallel_Cons if_False)
next
  assume "str_contains ''module.'' k0"
  then show "handle_DataParallel ((k0, v0) # rest) = Inr (strip_loop ((k0, v0) # rest) [])"
    by (simp only: handle_DataParallel_Cons if_True)
next
  show "fst ` set (strip_loop ((k0, v0) # rest) [])
      = str_replace ''module.'' [] ` fst ` set ((k0, v0) # rest)"
    using keys_strip_loop [of "(k0, v0) # rest" "[]"] by simp
next
  assume "distinct (map (\<lambda>(k, v). str_replace ''module.'' [] k) ((k0, v0) # rest))"
  then show "strip_loop ((k0, v0) # rest) []
      = map (\<lambda>(k, v). (str_replace ''module.'' [] k, v)) ((k0, v0) # rest)"
    using strip_loop_distinct [of "[]" "(k0, v0) # rest"] by simp
next
  assume "\<forall>s \<in> set segs. \<not> str_contains ''module.'' s"
  then show "str_replace ''module.'' [] (join ''module.'' segs) = concat segs"
    by (rule str_replace_join)
qed

theorem handle_DataParallel_first_key_witness:
  "handle_DataParallel [(''features.0.weight'', 1::nat), (''module.features.1.weight'', 2)]
     = Inr [(''features.0.weight'', 1), (''module.features.1.weight'', 2)]
   \<and> handle_DataParallel [(''module.features.module.0.weight'', 1::nat), (''se.module.fc'', 2)]
     = Inr [(''features.0.weight'', 1), (''se.fc'', 2)]
   \<and> str_replace ''module.'' [] ''a.module.b.module.c'' = ''a.b.c''"
  using handle_DataParallel_first_key
          [of "''features.0.weight''" "1::nat" "[(''module.features.1.weight'', 2)]" "[]"]
        handle_DataParallel_first_key
          [of "''module.features.module.0.weight''" "1::nat" "[(''se.module.fc'', 2)]"
              "[''a.'', ''b.'', ''c'']"]
  by simp

lemma handle_DataParallel_prefixed:
  assumes "distinct (map fst U)"
    and "U = [] \<or> str_contains ''module.'' (fst (hd U))
         \<or> (\<forall>k \<in> set (map fst U). \<not> str_contains ''module.'' k)"
  shows "handle_DataParallel (map (\<lambda>(k, v). (''module.'' @ k, v)) U) = handle_DataParallel U"
proof (cases U)
  case Nil
  then show ?thesis by (simp add: handle_DataParallel_def)
next
  case (Cons item rest)
  obtain k0 v0 where item: "item = (k0, v0)" by (cases item)
  have P: "map (\<lambda>(k, v). (''module.'' @ k, v)) U
      = (''module.'' @ k0, v0) # map (\<lambda>(k, v). (''module.'' @ k, v)) rest"
    using Cons item by simp
  have cP: "str_contains ''module.'' (''module.'' @ k0)"
    by simp
  have hP: "handle_DataParallel (map (\<lambda>(k, v). (''module.'' @ k, v)) U)
      = Inr (strip_loop U [])"
    unfolding P handle_DataParallel_Cons using cP
    by (simp only: if_True P [symmetric] strip_loop_prefixed)
  show ?thesis
  proof (cases "str_contains ''module.'' k0")
    case True
    then have "handle_DataParallel U = Inr (strip_loop U [])"
      unfolding Cons item handle_DataParallel_Cons by (simp only: if_True)
    with hP show ?thesis by simp
  next
    case False
    with assms(2) Cons item have none: "\<forall>k \<in> set (map fst U). \<not> str_contains ''module.'' k"
      by simp
    from False have "handle_DataParallel U = Inr U"
      unfolding Cons item handle_DataParallel_Cons by (simp only: if_False)
    moreover have "strip_loop U [] = U"
      using strip_loop_unchanged [of "[]" U] assms(1) none by simp
    ultimately show ?thesis using hP by simp
  qed
qed

text \<open>
  Claim C2, as amended. Take a checkpoint whose model state has distinct keys that all
  carry the prefix \<open>module.\<close>, each key being \<open>module.\<close> followed by a name, and
  suppose that among these names either the first one contains \<open>module.\<close> or none does.
  Then the loader hands the same state dict to \<open>load_state_dict\<close> as it does for the
  identical checkpoint without the prefix, so the two loads have the same outcome. And
  whenever the first key contains \<open>module.\<close>, the loader replaces every key by the
  result of \<open>replace('module.', '')\<close> before the assignment.
\<close>

theorem prefixed_checkpoint_loads_alike:
  assumes "distinct (map fst U)"
    and "U = [] \<or> str_contains ''module.'' (fst (hd U))
         \<or> (\<forall>k \<in> set (map fst U). \<not> str_contains ''module.'' k)"
    and "(if remote then load_state_dict_from_url libP else torch_load libP) = Inr ckP"
    and "ckP ''model_state'' = Some (map (\<lambda>(k, v). (''module.'' @ k, v)) U)"
    and "(if remote then load_state_dict_from_url libU else torch_load libU) = Inr ckU"
    and "ckU ''model_state'' = Some U"
    and "fresh_state_dict libP = fresh_state_dict libU"
    and "load_state_dict libP = load_state_dict libU"
  shows "handle_DataParallel (map (\<lambda>(k, v). (''module.'' @ k, v)) U) = handle_DataParallel U
    \<and> se_mobilenet_v2 libP True feats n_class lc remote
        = se_mobilenet_v2 libU True feats n_class lc remote
    \<and> (str_contains ''module.'' k0 \<longrightarrow>
         handle_DataParallel ((k0, v0) # rest) = Inr (strip_loop ((k0, v0) # rest) [])
         \<and> fst ` set (strip_loop ((k0, v0) # rest) [])
             = str_replace ''module.'' [] ` fst ` set ((k0, v0) # rest))"
proof -
  have h: "handle_DataParallel (map (\<lambda>(k, v). (''module.'' @ k, v)) U) = handle_DataParallel U"
    using assms(1,2) by (rule handle_DataParallel_prefixed)
  have "se_mobilenet_v2 libP True feats n_class lc remote
        = se_mobilenet_v2 libU True feats n_class lc remote"
    unfolding se_mobilenet_v2_def Let_def
    by (simp only: assms(3-8) h bindE_Inr option.case if_True)
  moreover have "str_contains ''module.'' k0 \<longrightarrow>
         handle_DataParallel ((k0, v0) # rest) = Inr (strip_loop ((k0, v0) # rest) [])
         \<and> fst ` set (strip_loop ((k0, v0) # rest) [])
             = str_replace ''module.'' [] ` fst ` set ((k0, v0) # rest)"
    using keys_strip_loop [of "(k0, v0) # rest" "[]"]
    by (simp only: handle_DataParallel_Cons) simp
  ultimately show ?thesis using h by blast
qed


theorem prefixed_checkpoint_loads_alike_witness:
  "handle_DataParallel (map (\<lambda>(k, v). (''module.'' @ k, v)) [(''a'', 1::nat), (''b'', 2)])
     = handle_DataParallel [(''a'', 1::nat), (''b'', 2)]
   \<and> handle_DataParallel [(''module.a'', 1::nat), (''module.b'', 2)] = Inr [(''a'', 1), (''b'', 2)]
   \<and> se_mobilenet_v2
        \<lparr> load_state_dict_from_url =
             Inr [''model_state'' \<mapsto> [(''module.a'', 1::nat), (''module.b'', 2)]],
           torch_load = Inl ResourceError,
           fresh_state_dict = (\<lambda>net. [(''a'', 0), (''b'', 0)]),
           load_state_dict = (\<lambda>current sd. Inr sd) \<rparr> True False 1000 1280 True
      = se_mobilenet_v2
        \<lparr> load_state_dict_from_url = Inr [''model_state'' \<mapsto> [(''a'', 1::nat), (''b'', 2)]],
           torch_load = Inl ResourceError,
           fresh_state_dict = (\<lambda>net. [(''a'', 0), (''b'', 0)]),
           load_state_dict = (\<lambda>current sd. Inr sd) \<rparr> True False 1000 1280 True"
  using prefixed_checkpoint_loads_alike
    [where U = "[(''a'', 1::nat), (''b'', 2)]" and remote = True
       and libP = "\<lparr> load_state_dict_from_url =
             Inr [''model_state'' \<mapsto> [(''module.a'', 1::nat), (''module.b'', 2)]],
           torch_load = Inl ResourceError,
           fresh_state_dict = (\<lambda>net. [(''a'', 0), (''b'', 0)]),
           load_state_dict = (\<lambda>current sd. Inr sd) \<rparr>"
       and ckP = "[''model_state'' \<mapsto> [(''module.a'', 1::nat), (''module.b'', 2)]]"
       and libU = "\<lparr> load_state_dict_from_url =
             Inr [''model_state'' \<mapsto> [(''a'', 1::nat), (''b'', 2)]],
           torch_load = Inl ResourceError,
           fresh_state_dict = (\<lambda>net. [(''a'', 0), (''b'', 0)]),
           load_state_dict = (\<lambda>current sd. Inr sd) \<rparr>"
       and ckU = "[''model_state'' \<mapsto> [(''a'', 1::nat), (''b'', 2)]]"
       and ?k0.0 = "''module.a''" and ?v0.0 = "1::nat" and rest = "[(''module.b'', 2)]"
       and feats = False and n_class = 1000 and lc = 1280]
  by (simp add: handle_DataParallel_def)

text \<open>
  The claim as first stated fails. Both keys of the first checkpoint below carry the
  prefix, and the second checkpoint is the same one without the prefix; the first is
  normalised to the names \<open>a\<close> and \<open>b\<close>, the second is passed on with the name
  \<open>module.b\<close>, because its first key does not contain \<open>module.\<close>. So in the second
  checkpoint a key contains the prefix and no key is stripped, and for a network with
  the parameters \<open>a\<close> and \<open>b\<close> and a strict \<open>load_state_dict\<close> the first load assigns
  both parameters while the second fails.
\<close>

theorem prefixed_checkpoint_counterexample:
  "handle_DataParallel [(''module.a'', 1::nat), (''module.module.b'', 2)]
     = Inr [(''a'', 1), (''b'', 2)]
   \<and> handle_DataParallel [(''a'', 1::nat), (''module.b'', 2)]
     = Inr [(''a'', 1), (''module.b'', 2)]
   \<and> str_contains ''module.'' ''module.b''
   \<and> (\<exists>m. se_mobilenet_v2
          \<lparr> load_state_dict_from_url =
               Inr [''model_state'' \<mapsto> [(''module.a'', 1::nat), (''module.module.b'', 2)]],
             torch_load = Inl ResourceError,
             fresh_state_dict = (\<lambda>net. [(''a'', 0), (''b'', 0)]),
             load_state_dict = load_state_dict_strict \<rparr> True False 1000 1280 True = Inr m
          \<and> state_dict m = [(''a'', 1), (''b'', 2)])
   \<and> se_mobilenet_v2
          \<lparr> load_state_dict_from_url =
               Inr [''model_state'' \<mapsto> [(''a'', 1::nat), (''module.b'', 2)]],
             torch_load = Inl ResourceError,
             fresh_state_dict = (\<lambda>net. [(''a'', 0), (''b'', 0)]),
             load_state_dict = load_state_dict_strict \<rparr> True False 1000 1280 True
        = Inl RuntimeError"
proof -
  obtain net where net: "SEMobileNetV2_init 1000 224 (Finite 1 0) 1280 = Inr net"
    using SEMobileNetV2_default_Inr by blast
  have "''module.b'' \<in> {''a'', ''module.b''}" and "''module.b'' \<notin> {''a'', ''b''}"
    by simp_all
  then have ne: "{''a'', ''module.b''} \<noteq> {''a'', ''b''}"
    by metis
  show ?thesis
    using ne by (simp add: se_mobilenet_v2_def net handle_DataParallel_def
        load_state_dict_strict_def)
qed

lemma map_of_replaced:
  "k \<in> fst ` set xs \<Longrightarrow> map_of (map (\<lambda>(k, old). (k, h k old)) xs) k \<in> Some ` h k ` snd ` set xs"
  by (induction xs) (auto split: if_splits)

lemma load_state_dict_strict_Inr:
  assumes "load_state_dict_strict current sd = Inr st"
  shows "set (map fst sd) = set (map fst current)"
    and "map fst st = map fst current"
    and "\<forall>k \<in> set (map fst current). map_of st k = map_of sd k"
proof -
  let ?h = "\<lambda>k old. case map_of sd k of Some v \<Rightarrow> v | None \<Rightarrow> old"
  from assms show keys: "set (map fst sd) = set (map fst current)"
    and st: "map fst st = map fst current"
    by (auto simp: load_state_dict_strict_def split: if_splits)
  from assms have st_eq: "st = map (\<lambda>(k, old). (k, ?h k old)) current"
    by (auto simp: load_state_dict_strict_def split: if_splits)
  show "\<forall>k \<in> set (map fst current). map_of st k = map_of sd k"
  proof
    fix k assume k: "k \<in> set (map fst current)"
    with keys have "k \<in> fst ` set sd" by simp
    then obtain v where v: "map_of sd k = Some v"
      by (metis map_of_eq_None_iff not_Some_eq)
    from k have "map_of st k \<in> Some ` ?h k ` snd ` set current"
      unfolding st_eq by (intro map_of_replaced) simp
    with v show "map_of st k = map_of sd k" by auto
  qed
qed

text \<open>
  Claim C3. With the library's strict \<open>load_state_dict\<close>, loading a pretrained
  checkpoint fails with the load error whenever the key set of the normalised state dict
  differs from the network's parameter names (a missing or an extra key), and then the
  loader returns no network at all. When the key sets agree, the loader returns the
  network with the same parameter names, every one of them holding the value of the
  normalised state dict: a load is all or nothing.
\<close>

theorem load_all_or_nothing:
  assumes "load_state_dict lib = load_state_dict_strict"
    and "(if remote then load_state_dict_from_url lib else torch_load lib) = Inr ck"
    and "ck ''model_state'' = Some sd"
    and "handle_DataParallel sd = Inr nsd"
    and "SEMobileNetV2_init n_class 224 (Finite 1 0) lc = Inr net"
  shows "(set (map fst nsd) \<noteq> set (map fst (fresh_state_dict lib net)) \<longrightarrow>
            se_mobilenet_v2 lib True feats n_class lc remote = Inl RuntimeError)
       \<and> (set (map fst nsd) = set (map fst (fresh_state_dict lib net)) \<longrightarrow>
            (\<exists>m. se_mobilenet_v2 lib True feats n_class lc remote = Inr m
               \<and> network m = net
               \<and> map fst (state_dict m) = map fst (fresh_state_dict lib net)
               \<and> (\<forall>k \<in> set (map fst (fresh_state_dict lib net)).
                     map_of (state_dict m) k = map_of nsd k)))"
proof -
  let ?fresh = "fresh_state_dict lib net"
  let ?model = "\<lparr> network = net, returns_features = feats, state_dict = ?fresh \<rparr>"
  have run: "se_mobilenet_v2 lib True feats n_class lc remote
      = bindE (load_state_dict_strict ?fresh nsd) (\<lambda>st. Inr (?model\<lparr>state_dict := st\<rparr>))"
    unfolding se_mobilenet_v2_def SEMobileNetV2Features_init_def Let_def
    by (simp add: assms)
  show ?thesis
  proof (intro conjI impI)
    assume "set (map fst nsd) \<noteq> set (map fst ?fresh)"
    then show "se_mobilenet_v2 lib True feats n_class lc remote = Inl RuntimeError"
      unfolding run by (simp add: load_state_dict_strict_def)
  next
    assume eq: "set (map fst nsd) = set (map fst ?fresh)"
    then obtain st where st: "load_state_dict_strict ?fresh nsd = Inr st"
      by (simp add: load_state_dict_strict_def)
    have "se_mobilenet_v2 lib True feats n_class lc remote = Inr (?model\<lparr>state_dict := st\<rparr>)"
      unfolding run st by simp
    moreover have "map fst st = map fst ?fresh"
      using load_state_dict_strict_Inr(2) [OF st] .
    moreover have "\<forall>k \<in> set (map fst ?fresh). map_of st k = map_of nsd k"
      using load_state_dict_strict_Inr(3) [OF st] .
    ultimately show "\<exists>m. se_mobilenet_v2 lib True feats n_class lc remote = Inr m
               \<and> network m = net
               \<and> map fst (state_dict m) = map fst ?fresh
               \<and> (\<forall>k \<in> set (map fst ?fresh). map_of (state_dict m) k = map_of nsd k)"
      by simp
  qed
qed

theorem load_all_or_nothing_witness:
  "se_mobilenet_v2
     \<lparr> load_state_dict_from_url = Inr [''model_state'' \<mapsto> [(''module.a'', 1::nat)]],
       torch_load = Inl ResourceError,
       fresh_state_dict = (\<lambda>net. [(''a'', 0), (''b'', 0)]),
       load_state_dict = load_state_dict_strict \<rparr> True False 1000 1280 True
     = Inl RuntimeError
   \<and> se_mobilenet_v2
     \<lparr> load_state_dict_from_url =
         Inr [''model_state'' \<mapsto> [(''module.a'', 1::nat), (''module.b'', 2), (''module.c'', 3)]],
       torch_load = Inl ResourceError,
       fresh_state_dict = (\<lambda>net. [(''a'', 0), (''b'', 0)]),
       load_state_dict = load_state_dict_strict \<rparr> True False 1000 1280 True
     = Inl RuntimeError
   \<and> (\<exists>m. se_mobilenet_v2
     \<lparr> load_state_dict_from_url =
         Inr [''model_state'' \<mapsto> [(''module.b'', 2::nat), (''module.a'', 1)]],
       torch_load = Inl ResourceError,
       fresh_state_dict = (\<lambda>net. [(''a'', 0), (''b'', 0)]),
       load_state_dict = load_state_dict_strict \<rparr> True False 1000 1280 True
     = Inr m \<and> map_of (state_dict m) ''a'' = Some 1 \<and> map_of (state_dict m) ''b'' = Some 2)"
proof -
  obtain net where net: "SEMobileNetV2_init 1000 224 (Finite 1 0) 1280 = Inr net"
    using SEMobileNetV2_default_Inr by blast
  let ?lib = "\<lambda>sd. \<lparr> load_state_dict_from_url = Inr [''model_state'' \<mapsto> sd],
       torch_load = Inl ResourceError,
       fresh_state_dict = (\<lambda>net. [(''a'', 0::nat), (''b'', 0)]),
       load_state_dict = load_state_dict_strict \<rparr>"
  have ne1: "{''a''} \<noteq> {''a'', ''b''}"
    by (simp add: doubleton_eq_iff singleton_insert_inj_eq)
  have "''c'' \<in> {''a'', ''b'', ''c''}" and "''c'' \<notin> {''a'', ''b''}"
    by simp_all
  then have ne2: "{''a'', ''b'', ''c''} \<noteq> {''a'', ''b''}"
    by metis
  have eq3: "{''b'', ''a''} = {''a'', ''b''}"
    by (rule insert_commute)
  have 1: "se_mobilenet_v2 (?lib [(''module.a'', 1)]) True False 1000 1280 True = Inl RuntimeError"
    using load_all_or_nothing [of "?lib [(''module.a'', 1)]" True
        "[''model_state'' \<mapsto> [(''module.a'', 1)]]" "[(''module.a'', 1)]" "[(''a'', 1)]"
        1000 1280 net False] net ne1
    by (simp add: handle_DataParallel_def)
  have 2: "se_mobilenet_v2 (?lib [(''module.a'', 1), (''module.b'', 2), (''module.c'', 3)])
      True False 1000 1280 True = Inl RuntimeError"
    using load_all_or_nothing
      [of "?lib [(''module.a'', 1), (''module.b'', 2), (''module.c'', 3)]" True
        "[''model_state'' \<mapsto> [(''module.a'', 1), (''module.b'', 2), (''module.c'', 3)]]"
        "[(''module.a'', 1), (''module.b'', 2), (''module.c'', 3)]"
        "[(''a'', 1), (''b'', 2), (''c'', 3)]" 1000 1280 net False] net ne2
    by (simp add: handle_DataParallel_def)
  have 3: "\<exists>m. se_mobilenet_v2 (?lib [(''module.b'', 2), (''module.a'', 1)])
      True False 1000 1280 True = Inr m
      \<and> map_of (state_dict m) ''a'' = Some 1 \<and> map_of (state_dict m) ''b'' = Some 2"
    using load_all_or_nothing
      [of "?lib [(''module.b'', 2), (''module.a'', 1)]" True
        "[''model_state'' \<mapsto> [(''module.b'', 2), (''module.a'', 1)]]"
        "[(''module.b'', 2), (''module.a'', 1)]"
        "[(''b'', 2), (''a'', 1)]" 1000 1280 net False] net eq3
    by (auto simp: handle_DataParallel_def)
  from 1 2 3 show ?thesis by simp
qed

end
